theory Spec2Isabelle
  imports Main "HOL-Library.Sublist" "HOL-Library.Char_ord" "HOL-Library.List_Lexorder"
begin

section \<open>JavaScript strings\<close>

text \<open>
  A JavaScript string is a sequence of UTF-16 code units. The pages the scraper reads are
  modelled over the code units below 256 (ASCII and Latin-1, which holds the pound sign
  U+00A3 of the price headings), so a string is a \<^typ>\<open>string\<close> and \<open>length\<close> is
  JavaScript's \<open>.length\<close>.
\<close>

definition pound :: char where
  "pound = CHR 0xA3"

text \<open>White space of \<open>\<bslash>s\<close> and of \<open>trim()\<close> among the code units below 256:
  tab, line feed, vertical tab, form feed, carriage return, space, no-break space.\<close>

definition isSpace :: "char \<Rightarrow> bool" where
  "isSpace c = (c = CHR 0x09 \<or> c = CHR 0x0A \<or> c = CHR 0x0B \<or> c = CHR 0x0C
     \<or> c = CHR 0x0D \<or> c = CHR 0x20 \<or> c = CHR 0xA0)"

definition isDigit :: "char \<Rightarrow> bool" where
  "isDigit c = (48 \<le> (of_char c :: nat) \<and> (of_char c :: nat) \<le> 57)"

text \<open>\<open>[a-z]\<close> under the flag \<open>i\<close> (no flag \<open>u\<close>): the ASCII letters only.\<close>

definition isLetter :: "char \<Rightarrow> bool" where
  "isLetter c = ((65 \<le> (of_char c :: nat) \<and> (of_char c :: nat) \<le> 90)
     \<or> (97 \<le> (of_char c :: nat) \<and> (of_char c :: nat) \<le> 122))"

text \<open>\<open>toLowerCase\<close> on one code unit below 256: \<open>A\<close>..\<open>Z\<close> and the Latin-1 capitals
  U+00C0..U+00DE (the multiplication sign U+00D7 apart) move up by 32.\<close>

definition lowerChar :: "char \<Rightarrow> char" where
  "lowerChar c =
     (let n = (of_char c :: nat)
      in if (65 \<le> n \<and> n \<le> 90) \<or> (192 \<le> n \<and> n \<le> 222 \<and> n \<noteq> 215)
         then char_of (n + 32) else c)"

definition toLowerCase :: "string \<Rightarrow> string" where
  "toLowerCase s = map lowerChar s"

text \<open>\<open>String.prototype.toUpperCase\<close> is a built-in of the runtime, not code of the
  scraper: \<open>findBestMatchingBrand\<close> below takes it as an argument, and what is proved of
  it holds for every upper-casing. Where a value is computed, the argument is
  \<open>toUpperCaseLatin1\<close>: \<open>a\<close>..\<open>z\<close> and U+00E0..U+00FE (the division sign U+00F7 apart)
  move down by 32 and the sharp s U+00DF becomes \<open>SS\<close>. This is what the built-in gives
  on every string of code units below 256 that holds neither U+00B5 nor U+00FF, whose
  upper case (U+039C, U+0178) is no code unit below 256; it is applied to such strings
  only.\<close>

definition upperUnit :: "char \<Rightarrow> string" where
  "upperUnit c =
     (let n = (of_char c :: nat)
      in if n = 223 then ''SS''
         else if (97 \<le> n \<and> n \<le> 122) \<or> (224 \<le> n \<and> n \<le> 254 \<and> n \<noteq> 247)
         then [char_of (n - 32)] else [c])"

definition toUpperCaseLatin1 :: "string \<Rightarrow> string" where
  "toUpperCaseLatin1 s = concat (map upperUnit s)"

definition trim :: "string \<Rightarrow> string" where
  "trim s = rev (dropWhile isSpace (rev (dropWhile isSpace s)))"

text \<open>\<open>s.includes(sub)\<close> (named \<open>includesStr\<close>: \<open>includes\<close> is a keyword here) and
  \<open>s.startsWith(p)\<close>.\<close>

definition includesStr :: "string \<Rightarrow> string \<Rightarrow> bool" where
  "includesStr s sub = sublist sub s"

definition startsWith :: "string \<Rightarrow> string \<Rightarrow> bool" where
  "startsWith s p = prefix p s"

section \<open>Field normalisation\<close>

subsection \<open>Size\<close>

definition getEdgeCaseSize :: "string \<Rightarrow> string option" where
  "getEdgeCaseSize title =
     (let lowerTitle = trim (toLowerCase title)
      in if lowerTitle = ''enya euc-ms'' then Some ''concert'' else None)"

definition extractSize :: "string \<Rightarrow> string" where
  "extractSize title =
     (let lowerTitle = toLowerCase title
      in case getEdgeCaseSize title of
           Some s \<Rightarrow> s
         | None \<Rightarrow>
             if includesStr lowerTitle ''soprano'' then ''soprano''
             else if includesStr lowerTitle ''sopranino'' then ''sopranino''
             else if includesStr lowerTitle ''concert'' then ''concert''
             else if includesStr lowerTitle ''tenor'' then ''tenor''
             else if includesStr lowerTitle ''baritone'' \<or> includesStr lowerTitle ''bari '' then ''baritone''
             else ''other'')"

subsection \<open>Price range\<close>

text \<open>The local \<open>cleanText\<close> of \<open>mapPriceRange\<close>:
  \<open>priceRangeText.replace(/\<pounds>/g, '').toLowerCase().trim()\<close>.\<close>

definition cleanText :: "string \<Rightarrow> string" where
  "cleanText priceRangeText = trim (toLowerCase (filter (\<lambda>c. c \<noteq> pound) priceRangeText))"

definition mapPriceRange :: "string \<Rightarrow> string" where
  "mapPriceRange priceRangeText =
     (let ct = cleanText priceRangeText
      in if includesStr ct ''500'' \<and> (includesStr ct ''plus'' \<or> includesStr ct ''+'') then ''500+''
         else if includesStr ct ''200 -'' \<or> includesStr ct ''200-'' then ''200-500''
         else if includesStr ct ''100 -'' \<or> includesStr ct ''100-'' then ''100-200''
         else if includesStr ct ''50-'' \<or> includesStr ct ''50 -'' then ''50-100''
         else if includesStr ct ''0 -'' \<or> startsWith ct ''0-'' then ''<50''
         else ''unknown'')"

text \<open>The mapping as the specification words it, for comparison: every currency symbol is
  stripped (among the code units below 256 the dollar, cent, pound, currency and yen signs),
  and the rest is as in the code.\<close>

definition isCurrencySymbol :: "char \<Rightarrow> bool" where
  "isCurrencySymbol c = (c = CHR 0x24 \<or> c = CHR 0xA2 \<or> c = CHR 0xA3 \<or> c = CHR 0xA4 \<or> c = CHR 0xA5)"

definition mapPriceRangeStrippingCurrency :: "string \<Rightarrow> string" where
  "mapPriceRangeStrippingCurrency priceRangeText =
     (let ct = trim (toLowerCase (filter (\<lambda>c. \<not> isCurrencySymbol c) priceRangeText))
      in if includesStr ct ''500'' \<and> (includesStr ct ''plus'' \<or> includesStr ct ''+'') then ''500+''
         else if includesStr ct ''200 -'' \<or> includesStr ct ''200-'' then ''200-500''
         else if includesStr ct ''100 -'' \<or> includesStr ct ''100-'' then ''100-200''
         else if includesStr ct ''50-'' \<or> includesStr ct ''50 -'' then ''50-100''
         else if includesStr ct ''0 -'' \<or> startsWith ct ''0-'' then ''<50''
         else ''unknown'')"

subsection \<open>Brand\<close>

text \<open>\<open>[...brandList].sort((a, b) => b.length - a.length)\<close>: a stable sort, longest first.\<close>

definition sortedBrands :: "string list \<Rightarrow> string list" where
  "sortedBrands brandList = sort_key (\<lambda>b. - int (length b)) brandList"

text \<open>\<open>title.split(/\<bslash>s+/)[0]\<close>: the text before the first white space (empty when the
  title is empty or begins with white space).\<close>

definition splitFirst :: "string \<Rightarrow> string" where
  "splitFirst title = takeWhile (\<lambda>c. \<not> isSpace c) title"

definition findBestMatchingBrand ::
  "(string \<Rightarrow> string) \<Rightarrow> string \<Rightarrow> string list \<Rightarrow> string" where
  "findBestMatchingBrand toUpperCase title brandList =
     (let titleUpper = toUpperCase title
      in case find (\<lambda>brand. includesStr titleUpper brand) (sortedBrands brandList) of
           Some brand \<Rightarrow> brand
         | None \<Rightarrow>
             (let firstWord = splitFirst title
              in if firstWord \<noteq> [] then toUpperCase firstWord else ''UNKNOWN''))"

text \<open>The first white-space-delimited token of a string, as the specification words the
  fallback: the first maximal run of characters that are not white space.\<close>

definition firstToken :: "string \<Rightarrow> string" where
  "firstToken title = takeWhile (\<lambda>c. \<not> isSpace c) (dropWhile isSpace title)"

subsection \<open>Date\<close>

definition months :: "string \<Rightarrow> string option" where
  "months = map_of
     [(''jan'', ''01''), (''feb'', ''02''), (''mar'', ''03''), (''apr'', ''04''),
      (''may'', ''05''), (''jun'', ''06''), (''jul'', ''07''), (''aug'', ''08''),
      (''sep'', ''09''), (''oct'', ''10''), (''nov'', ''11''), (''dec'', ''12'')]"

text \<open>\<open>/([a-z]{3})\<bslash>s+(\<bslash>d{4})/i\<close> anchored at the head of the string: three letters,
  all the white space that follows (at least one), four digits. The two groups are returned.\<close>

fun monthYearAt :: "string \<Rightarrow> (string \<times> string) option" where
  "monthYearAt (a # b # c # rest) =
     (if isLetter a \<and> isLetter b \<and> isLetter c
         \<and> takeWhile isSpace rest \<noteq> []
         \<and> 4 \<le> length (dropWhile isSpace rest)
         \<and> list_all isDigit (take 4 (dropWhile isSpace rest))
      then Some ([a, b, c], take 4 (dropWhile isSpace rest)) else None)"
| "monthYearAt _ = None"

text \<open>\<open>cleanDate.match(...)\<close>: the leftmost position where the pattern matches.\<close>

fun monthYearMatch :: "string \<Rightarrow> (string \<times> string) option" where
  "monthYearMatch [] = None"
| "monthYearMatch (c # cs) =
     (case monthYearAt (c # cs) of Some m \<Rightarrow> Some m | None \<Rightarrow> monthYearMatch cs)"

text \<open>\<open>cleanDate.match(/(\<bslash>d{4})/)\<close>: the leftmost four digits in a row.\<close>

fun yearMatch :: "string \<Rightarrow> string option" where
  "yearMatch [] = None"
| "yearMatch (c # cs) =
     (if 4 \<le> length (c # cs) \<and> list_all isDigit (take 4 (c # cs)) then Some (take 4 (c # cs))
      else yearMatch cs)"

text \<open>The local \<open>cleanDate\<close>: \<open>dateStr.replace(/[()]/g, '').trim()\<close>.\<close>

definition cleanDate :: "string \<Rightarrow> string" where
  "cleanDate dateStr = trim (filter (\<lambda>c. c \<noteq> CHR ''('' \<and> c \<noteq> CHR '')'') dateStr)"

text \<open>The month branch returns only when the matched letters are a key of \<open>months\<close>;
  otherwise control falls through to the year pattern. \<open>None\<close> is \<open>null\<close>.\<close>

definition parseReviewDate :: "string \<Rightarrow> string option" where
  "parseReviewDate dateStr =
     (if dateStr = [] then None
      else
        (let cd = cleanDate dateStr;
             monthResult =
               (case monthYearMatch cd of
                  Some (m, year) \<Rightarrow>
                    (case months (toLowerCase m) of
                       Some month \<Rightarrow> Some (year @ ''-'' @ month @ ''-01'')
                     | None \<Rightarrow> None)
                | None \<Rightarrow> None)
         in case monthResult of
              Some r \<Rightarrow> Some r
            | None \<Rightarrow>
                (case yearMatch cd of
                   Some year \<Rightarrow> Some (year @ ''-01-01'')
                 | None \<Rightarrow> None)))"

text \<open>What the two patterns of \<open>parseReviewDate\<close> match at the head of a string, said
  without a matcher, to state what \<open>monthYearMatch\<close> and \<open>yearMatch\<close> find: the string
  begins with three letters \<open>m\<close>, white space and four digits \<open>y\<close>; the string begins
  with four digits \<open>y\<close>.\<close>

definition beginsWithMonthYear :: "string \<Rightarrow> string \<Rightarrow> string \<Rightarrow> bool" where
  "beginsWithMonthYear s m y =
     (\<exists>ws post. s = m @ ws @ y @ post
        \<and> length m = 3 \<and> list_all isLetter m
        \<and> ws \<noteq> [] \<and> list_all isSpace ws
        \<and> length y = 4 \<and> list_all isDigit y)"

definition beginsWithYear :: "string \<Rightarrow> string \<Rightarrow> bool" where
  "beginsWithYear s y = (\<exists>post. s = y @ post \<and> length y = 4 \<and> list_all isDigit y)"

section \<open>Review link extraction\<close>

datatype error =
    RequestFailed
  | TypeError
  | UnexpectedPriceRanges
  | UnexpectedSizes
  | NoReviewsFound

subsection \<open>Price attribution by document position\<close>

text \<open>A parsed node with its start offset in the document. \<open>data\<close> is the text of a text
  node; an element has none.\<close>

record node =
  startIndex :: nat
  data :: "string option"

text \<open>A \<open>b > span\<close> element: its text content and its first child.\<close>

record span =
  spanText :: string
  firstChild :: node

text \<open>The keys of \<open>this.priceRanges\<close>, in insertion order.\<close>

definition priceRangeKeys :: "string list" where
  "priceRangeKeys =
     [''Ukuleles '' @ [pound] @ ''0 - '' @ [pound] @ ''50'',
      ''Ukuleles '' @ [pound] @ ''50- '' @ [pound] @ ''100'',
      ''Ukuleles '' @ [pound] @ ''100 - '' @ [pound] @ ''200'',
      ''Ukuleles '' @ [pound] @ ''200 - '' @ [pound] @ ''500'',
      ''Ukuleles '' @ [pound] @ ''500 plus'']"

text \<open>The list \<open>priceTitleNodes\<close> of \<open>extractAllReviews\<close>: for each key in turn, the
  first child of every span (in document order) whose trimmed text starts with the key.\<close>

definition priceTitleNodes :: "span list \<Rightarrow> node list" where
  "priceTitleNodes spans =
     concat (map (\<lambda>priceTitle.
        map firstChild (filter (\<lambda>element. startsWith (trim (spanText element)) priceTitle) spans))
        priceRangeKeys)"

definition isHigherInDom :: "node \<Rightarrow> node \<Rightarrow> bool" where
  "isHigherInDom node1 node2 = (startIndex node1 < startIndex node2)"

text \<open>The local \<open>priceNode\<close> of \<open>extractReviewPrice\<close> after the \<open>forEach\<close>: it starts as
  \<open>priceTitles[0]\<close> (\<open>undefined\<close>, here \<open>None\<close>, on an empty list) and every heading
  that does not start after the anchor overwrites it.\<close>

definition priceNodeOf :: "node \<Rightarrow> node list \<Rightarrow> node option" where
  "priceNodeOf nd priceTitles =
     foldl (\<lambda>priceNode priceTitleNode.
              if \<not> isHigherInDom nd priceTitleNode then Some priceTitleNode else priceNode)
       (case priceTitles of [] \<Rightarrow> None | p # _ \<Rightarrow> Some p)
       priceTitles"

text \<open>Reading \<open>.data\<close> of \<open>undefined\<close>, and calling \<open>.replace\<close> on a missing
  \<open>data\<close>, throw a \<open>TypeError\<close>.\<close>

definition extractReviewPrice :: "node \<Rightarrow> node list \<Rightarrow> error + string" where
  "extractReviewPrice nd priceTitles =
     (case priceNodeOf nd priceTitles of
        None \<Rightarrow> Inl TypeError
      | Some priceNode \<Rightarrow>
          (case data priceNode of
             None \<Rightarrow> Inl TypeError
           | Some d \<Rightarrow> Inr (mapPriceRange d)))"

subsection \<open>Text following an anchor\<close>

text \<open>A sibling node as the scan sees it: a text node with its data, an element of type
  \<open>tag\<close> with its name, or any other node (comment, script, style).\<close>

datatype sibling = TextNode string | TagNode string | OtherNode

text \<open>The first \<open>while\<close> loop of the link callback, from \<open>nextNode\<close> (the head of the list
  of following siblings) and the text collected so far.\<close>

fun collectFollowing :: "sibling list \<Rightarrow> string \<Rightarrow> string" where
  "collectFollowing [] followingText = followingText"
| "collectFollowing (nextNode # rest) followingText =
     (if length followingText < 100 then
        (case nextNode of
           TextNode d \<Rightarrow>
             if includesStr d ''out'' then collectFollowing rest (followingText @ d)
             else collectFollowing rest followingText
         | TagNode name \<Rightarrow>
             if name = ''br'' \<and> name = ''div'' then followingText
             else collectFollowing rest followingText
         | OtherNode \<Rightarrow> collectFollowing rest followingText)
      else followingText)"

text \<open>The second loop, over the siblings that follow the enclosing \<open>b\<close> element.\<close>

fun collectAfterBold :: "sibling list \<Rightarrow> string \<Rightarrow> string" where
  "collectAfterBold [] followingText = followingText"
| "collectAfterBold (bSibling # rest) followingText =
     (if length followingText < 100 then
        (case bSibling of
           TextNode d \<Rightarrow> followingText @ d
         | TagNode name \<Rightarrow>
             if name = ''br'' \<and> name = ''div'' then followingText
             else collectAfterBold rest followingText
         | OtherNode \<Rightarrow> collectAfterBold rest followingText)
      else followingText)"

text \<open>The text matched against the rating pattern: the siblings that follow the anchor,
  the name of the anchor's parent element (\<open>None\<close> when the anchor has no parent element)
  and the siblings that follow the parent. When the first loop collected nothing the code
  reads \<open>$link.parent()[0].name\<close>, which throws a \<open>TypeError\<close> when there is no parent
  element.\<close>

definition followingTextOf ::
  "sibling list \<Rightarrow> string option \<Rightarrow> sibling list \<Rightarrow> error + string" where
  "followingTextOf nextSiblings parentName parentNextSiblings =
     (let followingText = collectFollowing nextSiblings []
      in if followingText = [] then
           (case parentName of
              None \<Rightarrow> Inl TypeError
            | Some name \<Rightarrow>
                if name = ''b'' then Inr (collectAfterBold parentNextSiblings followingText)
                else Inr followingText)
         else Inr followingText)"

text \<open>The scan the specification describes, for comparison: text is accumulated from the
  following siblings until a \<open>br\<close> or \<open>div\<close> element is reached or 100 characters are
  collected.\<close>

fun scanUntilBreak :: "sibling list \<Rightarrow> string \<Rightarrow> string" where
  "scanUntilBreak [] followingText = followingText"
| "scanUntilBreak (nextNode # rest) followingText =
     (if length followingText < 100 then
        (case nextNode of
           TextNode d \<Rightarrow>
             if includesStr d ''out'' then scanUntilBreak rest (followingText @ d)
             else scanUntilBreak rest followingText
         | TagNode name \<Rightarrow>
             if name = ''br'' \<or> name = ''div'' then followingText
             else scanUntilBreak rest followingText
         | OtherNode \<Rightarrow> scanUntilBreak rest followingText)
      else followingText)"

section \<open>Review records, diff and persistence\<close>

text \<open>A review record. The field \<open>size\<close> of the source is \<open>sizeCategory\<close> here
  (\<open>size\<close> is a constant of HOL). The rating is a JavaScript number; its type is left
  open.\<close>

record 'n review =
  sizeCategory :: string
  brand :: string
  model :: string
  priceRange :: string
  url :: string
  rating :: 'n
  reviewDate :: "string option"

text \<open>A JavaScript \<open>Set\<close> built from a list: the distinct elements in the order of their
  first insertion.\<close>

definition newSet :: "'a list \<Rightarrow> 'a list" where
  "newSet xs = foldl (\<lambda>s x. if x \<in> set s then s else s @ [x]) [] xs"

subsection \<open>Diff reports\<close>

text \<open>The \<open>changes\<close> and \<open>summary\<close> parts of a diff report (the \<open>timestamp\<close>, read from
  the clock, is left out). The field \<open>new\<close> of the source is \<open>newItems\<close> here. The two
  implementations differ in what \<open>updated\<close> and \<open>removed\<close> hold.\<close>

record ('r, 'u, 'd) changes =
  newItems :: "'r list"
  updated :: "'u list"
  removed :: "'d list"

record summary =
  totalPrevious :: nat
  totalCurrent :: nat
  netChange :: int

record ('r, 'u, 'd) diff_report =
  changes :: "('r, 'u, 'd) changes"
  summary :: summary

text \<open>\<open>UkuleleReviewsScraper.generateDiffReport\<close>; \<open>previousData\<close> may be \<open>null\<close>.\<close>

definition generateDiffReport ::
  "'n review list option \<Rightarrow> 'n review list \<Rightarrow> ('n review, unit, string) diff_report" where
  "generateDiffReport previousData currentData =
     (let prevUrls = newSet (map url (case previousData of None \<Rightarrow> [] | Some p \<Rightarrow> p));
          currUrls = newSet (map url currentData);
          newReviews = filter (\<lambda>item. url item \<notin> set prevUrls) currentData;
          removedUrls = filter (\<lambda>u. u \<notin> set currUrls) prevUrls;
          prevLength = (case previousData of None \<Rightarrow> 0 | Some p \<Rightarrow> length p)
      in \<lparr>changes = \<lparr>newItems = newReviews, updated = [], removed = removedUrls\<rparr>,
          summary = \<lparr>totalPrevious = prevLength, totalCurrent = length currentData,
                     netChange = int (length currentData) - int prevLength\<rparr>\<rparr>)"

text \<open>\<open>ChangeDetector.generateDiffReport\<close>. An entry of \<open>updated\<close> is the triple of
  \<open>url\<close>, \<open>previous\<close> and \<open>current\<close>; the comparison of the two
  \<open>JSON.stringify\<close> texts is rendered as inequality of the records.\<close>

definition detectorUpdated ::
  "'n review list \<Rightarrow> 'n review list \<Rightarrow> (string \<times> 'n review \<times> 'n review) list" where
  "detectorUpdated previousData currentData =
     concat (map (\<lambda>currentItem.
        case find (\<lambda>p. url p = url currentItem) previousData of
          Some previousItem \<Rightarrow>
            if previousItem \<noteq> currentItem then [(url currentItem, previousItem, currentItem)] else []
        | None \<Rightarrow> []) currentData)"

definition ChangeDetector_generateDiffReport ::
  "'n review list option \<Rightarrow> 'n review list
     \<Rightarrow> ('n review, string \<times> 'n review \<times> 'n review, 'n review) diff_report" where
  "ChangeDetector_generateDiffReport previousData currentData =
     (let prevLength = (case previousData of None \<Rightarrow> 0 | Some p \<Rightarrow> length p);
          summ = \<lparr>totalPrevious = prevLength, totalCurrent = length currentData,
                  netChange = int (length currentData) - int prevLength\<rparr>
      in case previousData of
           None \<Rightarrow> \<lparr>changes = \<lparr>newItems = currentData, updated = [], removed = []\<rparr>, summary = summ\<rparr>
         | Some prev \<Rightarrow>
             (let previousUrls = map url prev;
                  currentUrls = map url currentData
              in \<lparr>changes =
                    \<lparr>newItems = filter (\<lambda>item. url item \<notin> set previousUrls) currentData,
                     updated = detectorUpdated prev currentData,
                     removed = filter (\<lambda>item. url item \<notin> set currentUrls) prev\<rparr>,
                  summary = summ\<rparr>))"

subsection \<open>Output files\<close>

record metadata =
  lastUpdated :: string
  brands :: "string list"
  sizes :: "string list"
  priceRanges :: "string list"

record 'n run_metadata =
  sourceUrl :: string
  scrapedAt :: nat
  total :: nat
  diffReport :: "('n review, unit, string) diff_report"

record 'n scrape_output =
  outputData :: "'n review list"
  outputMetadata :: "'n run_metadata"

text \<open>The output directory: the parsed content of \<open>other-data.json\<close> and of
  \<open>ukulele-reviews.json\<close>, \<open>None\<close> for a file that is absent or cannot be read.
  Writes are taken to succeed.\<close>

record 'n files =
  metadataFile :: "metadata option"
  reviewsFile :: "'n scrape_output option"

text \<open>The clock: \<open>new Date().toISOString()\<close> and \<open>Date.now()\<close>.\<close>

record clock =
  isoNow :: string
  msNow :: nat

definition checkForNewBrands :: "string list \<Rightarrow> 'n files \<Rightarrow> string list" where
  "checkForNewBrands currentBrands fs =
     (case metadataFile fs of
        Some existingMetadata \<Rightarrow> filter (\<lambda>b. b \<notin> set (brands existingMetadata)) currentBrands
      | None \<Rightarrow> currentBrands)"

text \<open>\<open>saveBrandMetadata\<close> returns the metadata or the error thrown, and the files as they
  are when it returns or throws.\<close>

definition saveBrandMetadata ::
  "clock \<Rightarrow> 'n review list \<Rightarrow> 'n files \<Rightarrow> (error + metadata) \<times> 'n files" where
  "saveBrandMetadata clk reviews fs =
     (let brandSet = newSet (map brand reviews);
          sizeSet = newSet (map sizeCategory reviews);
          priceRangeSet = newSet (map priceRange reviews);
          md = \<lparr>lastUpdated = isoNow clk,
                brands = sort brandSet,
                sizes = [''Soprano'', ''Concert'', ''Tenor'', ''Baritone'', ''Sopranino'', ''Other''],
                priceRanges = [''<50'', ''50-100'', ''100-200'', ''200-500'', ''500+'']\<rparr>
      in if \<not> list_all (\<lambda>pr. pr \<in> set (priceRanges md)) priceRangeSet
         then (Inl UnexpectedPriceRanges, fs)
         else if \<not> list_all (\<lambda>sz. sz \<in> set (map toLowerCase (sizes md))) sizeSet
         then (Inl UnexpectedSizes, fs)
         else (Inr md, fs\<lparr>metadataFile := Some md\<rparr>))"

text \<open>\<open>extractAllReviews\<close> from the point where the records are assembled. Its first
  argument is what the fetch and the walk over the page gave: the error thrown there, or
  the list \<open>reviews\<close>. The logging that follows the save has no effect on the result.\<close>

definition extractAllReviews ::
  "clock \<Rightarrow> error + 'n review list \<Rightarrow> 'n files \<Rightarrow> (error + 'n review list) \<times> 'n files" where
  "extractAllReviews clk extracted fs =
     (case extracted of
        Inl e \<Rightarrow> (Inl e, fs)
      | Inr reviews \<Rightarrow>
          (let uniqueBrands = sort (newSet (map brand reviews));
               newBrands = checkForNewBrands uniqueBrands fs
           in case saveBrandMetadata clk reviews fs of
                (Inl e, fs') \<Rightarrow> (Inl e, fs')
              | (Inr md, fs') \<Rightarrow> (Inr reviews, fs')))"

definition scraperSourceUrl :: string where
  "scraperSourceUrl = ''https://www.gotaukulele.com/p/ukulele-reviews.html''"

text \<open>\<open>scrape\<close>: the \<open>catch\<close> block logs and rethrows, so an error passes through with
  the files as they are at the throw.\<close>

definition scrape ::
  "clock \<Rightarrow> error + 'n review list \<Rightarrow> 'n files \<Rightarrow> (error + 'n scrape_output) \<times> 'n files" where
  "scrape clk extracted fs =
     (case extractAllReviews clk extracted fs of
        (Inl e, fs1) \<Rightarrow> (Inl e, fs1)
      | (Inr reviews, fs1) \<Rightarrow>
          if length reviews = 0 then (Inl NoReviewsFound, fs1)
          else
            (let previousData = (case reviewsFile fs1 of None \<Rightarrow> None | Some parsed \<Rightarrow> Some (outputData parsed));
                 report = generateDiffReport previousData reviews;
                 out = \<lparr>outputData = reviews,
                        outputMetadata = \<lparr>sourceUrl = scraperSourceUrl, scrapedAt = msNow clk,
                                           total = length reviews, diffReport = report\<rparr>\<rparr>
             in (Inr out, fs1\<lparr>reviewsFile := Some out\<rparr>)))"

subsection \<open>Sample records\<close>

text \<open>Three review records with three different URLs, used where a property is evaluated
  on concrete data.\<close>

definition sampleKala :: "nat review" where
  "sampleKala =
     \<lparr>sizeCategory = ''soprano'', brand = ''KALA'', model = ''KA-S'', priceRange = ''50-100'',
      url = ''https://www.gotaukulele.com/2020/01/kala-ka-s.html'', rating = 9,
      reviewDate = Some ''2020-01-01''\<rparr>"

definition sampleOhana :: "nat review" where
  "sampleOhana =
     \<lparr>sizeCategory = ''tenor'', brand = ''OHANA'', model = ''TK-10'', priceRange = ''100-200'',
      url = ''https://www.gotaukulele.com/2021/03/ohana-tk-10.html'', rating = 8,
      reviewDate = Some ''2021-03-01''\<rparr>"

definition sampleFlight :: "nat review" where
  "sampleFlight =
     \<lparr>sizeCategory = ''concert'', brand = ''FLIGHT'', model = ''DUC323'', priceRange = ''<50'',
      url = ''https://www.gotaukulele.com/2019/06/flight-duc323.html'', rating = 9,
      reviewDate = None\<rparr>"

text \<open>The record a page yields when it links the review of \<open>sampleKala\<close> a second time,
  under another price heading: the same URL in a different record.\<close>

definition sampleKalaRelisted :: "nat review" where
  "sampleKalaRelisted = sampleKala\<lparr>priceRange := ''100-200''\<rparr>"

section \<open>Properties of the size detection\<close>

lemma set_trim: "set s \<subseteq> set (trim s) \<union> Collect isSpace"
proof
  fix c assume c: "c \<in> set s"
  define d where "d = dropWhile isSpace s"
  have s: "s = takeWhile isSpace s @ d" by (simp add: d_def)
  have d: "rev d = takeWhile isSpace (rev d) @ dropWhile isSpace (rev d)" by simp
  have t: "set (trim s) = set (dropWhile isSpace (rev d))" by (simp add: trim_def d_def)
  from c s have "c \<in> set (takeWhile isSpace s) \<or> c \<in> set d"
    by (metis Un_iff set_append)
  then show "c \<in> set (trim s) \<union> Collect isSpace"
  proof
    assume "c \<in> set (takeWhile isSpace s)"
    then show ?thesis by (auto dest: set_takeWhileD)
  next
    assume "c \<in> set d"
    then have "c \<in> set (rev d)" by simp
    with d have "c \<in> set (takeWhile isSpace (rev d)) \<or> c \<in> set (dropWhile isSpace (rev d))"
      by (metis Un_iff set_append)
    with t show ?thesis by (auto dest: set_takeWhileD)
  qed
qed

lemma includesStr_set: "includesStr s sub \<Longrightarrow> set sub \<subseteq> set s"
  by (auto simp: includesStr_def sublist_def)

lemma edge_case_no_p:
  assumes "getEdgeCaseSize title = Some v"
  shows "CHR ''p'' \<notin> set (toLowerCase title)"
proof -
  from assms have t: "trim (toLowerCase title) = ''enya euc-ms''"
    by (simp add: getEdgeCaseSize_def split: if_splits)
  have "set (toLowerCase title) \<subseteq> set ''enya euc-ms'' \<union> Collect isSpace"
    using set_trim [of "toLowerCase title"] by (simp only: t)
  moreover have "CHR ''p'' \<notin> set ''enya euc-ms'' \<union> Collect isSpace"
    by (simp add: isSpace_def)
  ultimately show ?thesis by blast
qed

lemma soprano_not_edge:
  assumes "includesStr (toLowerCase title) ''soprano'' \<or> includesStr (toLowerCase title) ''sopranino''"
  shows "getEdgeCaseSize title = None"
proof (cases "getEdgeCaseSize title")
  case None then show ?thesis .
next
  case (Some v)
  from assms have "CHR ''p'' \<in> set (toLowerCase title)"
    by (auto dest!: includesStr_set)
  with edge_case_no_p [OF Some] show ?thesis by simp
qed

text \<open>
  Claim C3, as stated, at the title \<open>Ohana Sopranino\<close>: its lower-cased text contains
  \<open>sopranino\<close>, it is not the title exception, and \<open>extractSize\<close> returns
  \<open>sopranino\<close>, not \<open>soprano\<close>. The word \<open>sopranino\<close> does not contain \<open>soprano\<close>.
\<close>

theorem extractSize_sopranino_counterexample:
  "includesStr (toLowerCase ''Ohana Sopranino'') ''sopranino''
   \<and> getEdgeCaseSize ''Ohana Sopranino'' = None
   \<and> extractSize ''Ohana Sopranino'' = ''sopranino''
   \<and> extractSize ''Ohana Sopranino'' \<noteq> ''soprano''
   \<and> \<not> includesStr ''sopranino'' ''soprano''"
  by code_simp

text \<open>
  Claim C3, amended: the size keywords are tested by containment in the lower-cased title in
  the order soprano, sopranino, concert, tenor, baritone, and the first that matches wins.
  A title that contains \<open>soprano\<close> yields \<open>soprano\<close>; a title that contains \<open>sopranino\<close>
  and not \<open>soprano\<close> yields \<open>sopranino\<close> (the title exception can apply to neither);
  a title that is not the exception and contains none of the earlier keywords yields the
  first of \<open>concert\<close>, \<open>tenor\<close>, \<open>baritone\<close> that it contains.
\<close>

theorem extractSize_priority:
  "(includesStr (toLowerCase title) ''soprano'' \<longrightarrow> extractSize title = ''soprano'')
   \<and> (\<not> includesStr (toLowerCase title) ''soprano'' \<and> includesStr (toLowerCase title) ''sopranino''
        \<longrightarrow> extractSize title = ''sopranino'')
   \<and> (getEdgeCaseSize title = None
        \<and> \<not> includesStr (toLowerCase title) ''soprano''
        \<and> \<not> includesStr (toLowerCase title) ''sopranino''
        \<and> includesStr (toLowerCase title) ''concert''
        \<longrightarrow> extractSize title = ''concert'')
   \<and> (getEdgeCaseSize title = None
        \<and> \<not> includesStr (toLowerCase title) ''soprano''
        \<and> \<not> includesStr (toLowerCase title) ''sopranino''
        \<and> \<not> includesStr (toLowerCase title) ''concert''
        \<and> includesStr (toLowerCase title) ''tenor''
        \<longrightarrow> extractSize title = ''tenor'')
   \<and> (getEdgeCaseSize title = None
        \<and> \<not> includesStr (toLowerCase title) ''soprano''
        \<and> \<not> includesStr (toLowerCase title) ''sopranino''
        \<and> \<not> includesStr (toLowerCase title) ''concert''
        \<and> \<not> includesStr (toLowerCase title) ''tenor''
        \<and> includesStr (toLowerCase title) ''baritone''
        \<longrightarrow> extractSize title = ''baritone'')"
proof -
  have edge: "includesStr (toLowerCase title) ''soprano'' \<or> includesStr (toLowerCase title) ''sopranino''
      \<Longrightarrow> getEdgeCaseSize title = None"
    by (rule soprano_not_edge)
  show ?thesis
    using edge by (auto simp: extractSize_def Let_def)
qed

theorem extractSize_priority_witness:
  "extractSize ''Kala KA-S Soprano'' = ''soprano''
   \<and> extractSize ''Ohana Sopranino SK-21'' = ''sopranino''
   \<and> extractSize ''Kala Concert'' = ''concert''
   \<and> extractSize ''Kala Tenor'' = ''tenor''
   \<and> extractSize ''Kala Baritone'' = ''baritone''"
proof -
  have h1: "includesStr (toLowerCase ''Kala KA-S Soprano'') ''soprano''"
    by code_simp
  have h2: "\<not> includesStr (toLowerCase ''Ohana Sopranino SK-21'') ''soprano''
      \<and> includesStr (toLowerCase ''Ohana Sopranino SK-21'') ''sopranino''"
    by code_simp
  have h3: "getEdgeCaseSize ''Kala Concert'' = None
        \<and> \<not> includesStr (toLowerCase ''Kala Concert'') ''soprano''
        \<and> \<not> includesStr (toLowerCase ''Kala Concert'') ''sopranino''
        \<and> includesStr (toLowerCase ''Kala Concert'') ''concert''"
    by code_simp
  have h4: "getEdgeCaseSize ''Kala Tenor'' = None
        \<and> \<not> includesStr (toLowerCase ''Kala Tenor'') ''soprano''
        \<and> \<not> includesStr (toLowerCase ''Kala Tenor'') ''sopranino''
        \<and> \<not> includesStr (toLowerCase ''Kala Tenor'') ''concert''
        \<and> includesStr (toLowerCase ''Kala Tenor'') ''tenor''"
    by code_simp
  have h5: "getEdgeCaseSize ''Kala Baritone'' = None
        \<and> \<not> includesStr (toLowerCase ''Kala Baritone'') ''soprano''
        \<and> \<not> includesStr (toLowerCase ''Kala Baritone'') ''sopranino''
        \<and> \<not> includesStr (toLowerCase ''Kala Baritone'') ''concert''
        \<and> \<not> includesStr (toLowerCase ''Kala Baritone'') ''tenor''
        \<and> includesStr (toLowerCase ''Kala Baritone'') ''baritone''"
    by code_simp
  note t1 = extractSize_priority [of "''Kala KA-S Soprano''"]
  note t2 = extractSize_priority [of "''Ohana Sopranino SK-21''"]
  note t3 = extractSize_priority [of "''Kala Concert''"]
  note t4 = extractSize_priority [of "''Kala Tenor''"]
  note t5 = extractSize_priority [of "''Kala Baritone''"]
  from t1 h1 have c1: "extractSize ''Kala KA-S Soprano'' = ''soprano''" by blast
  from t2 h2 have c2: "extractSize ''Ohana Sopranino SK-21'' = ''sopranino''" by blast
  from t3 h3 have c3: "extractSize ''Kala Concert'' = ''concert''" by blast
  from t4 h4 have c4: "extractSize ''Kala Tenor'' = ''tenor''" by blast
  from t5 h5 have c5: "extractSize ''Kala Baritone'' = ''baritone''" by blast
  from c1 c2 c3 c4 c5 show ?thesis by blast
qed

text \<open>
  Claim C6: for every input string \<open>extractSize\<close> returns one of the six sizes and
  \<open>mapPriceRange\<close> one of the six price categories; hence the size of an extracted record
  and the price range that \<open>extractReviewPrice\<close> gives it, when it returns, lie in these sets.
\<close>

theorem size_and_priceRange_categories:
  "extractSize title \<in> {''soprano'', ''sopranino'', ''concert'', ''tenor'', ''baritone'', ''other''}
   \<and> mapPriceRange priceRangeText \<in> {''<50'', ''50-100'', ''100-200'', ''200-500'', ''500+'', ''unknown''}
   \<and> (case extractReviewPrice nd priceTitles of
         Inl e \<Rightarrow> e = TypeError
       | Inr pr \<Rightarrow> pr \<in> {''<50'', ''50-100'', ''100-200'', ''200-500'', ''500+'', ''unknown''})"
proof -
  have s: "extractSize title \<in> {''soprano'', ''sopranino'', ''concert'', ''tenor'', ''baritone'', ''other''}"
    by (simp add: extractSize_def getEdgeCaseSize_def Let_def)
  have p: "mapPriceRange t \<in> {''<50'', ''50-100'', ''100-200'', ''200-500'', ''500+'', ''unknown''}" for t
    by (simp add: mapPriceRange_def Let_def)
  have e: "(case extractReviewPrice nd priceTitles of
         Inl e \<Rightarrow> e = TypeError
       | Inr pr \<Rightarrow> pr \<in> {''<50'', ''50-100'', ''100-200'', ''200-500'', ''500+'', ''unknown''})"
    using p by (simp add: extractReviewPrice_def split: option.splits)
  from s p e show ?thesis by blast
qed

section \<open>Properties of the price-range mapping\<close>

lemma lowerChar_idem: "lowerChar (lowerChar c) = lowerChar c"
proof -
  have "of_char (char_of (n + 32) :: char) = n + 32" if "n < 224" for n :: nat
    using that by simp
  then show ?thesis
    by (auto simp: lowerChar_def Let_def)
qed

lemma lowerChar_pound: "lowerChar c = pound \<Longrightarrow> c = pound"
proof -
  assume a: "lowerChar c = pound"
  have p: "of_char pound = (163::nat)" by (simp add: pound_def)
  show ?thesis
  proof (cases "lowerChar c = c")
    case True
    with a show ?thesis by simp
  next
    case False
    then have c: "lowerChar c = char_of (of_char c + 32 :: nat)"
      and r: "(65 \<le> (of_char c :: nat) \<and> (of_char c :: nat) \<le> 90)
        \<or> (192 \<le> (of_char c :: nat) \<and> (of_char c :: nat) \<le> 222)"
      by (auto simp: lowerChar_def Let_def split: if_splits)
    from r have "of_char (char_of (of_char c + 32 :: nat) :: char) = (of_char c + 32 :: nat)"
      by auto
    with a c p have "(of_char c + 32 :: nat) = 163" by simp
    with r show ?thesis by arith
  qed
qed

lemma lowerChar_not_capital:
  "\<not> (65 \<le> (of_char (lowerChar c) :: nat) \<and> (of_char (lowerChar c) :: nat) \<le> 90)"
proof -
  have "of_char (char_of (n + 32) :: char) = n + 32" if "n < 224" for n :: nat
    using that by simp
  then show ?thesis
    by (auto simp: lowerChar_def Let_def)
qed

lemma set_trim_subset: "set (trim s) \<subseteq> set s"
  by (auto simp: trim_def dest!: set_dropWhileD)

lemma last_dropWhile_eq: "dropWhile P xs \<noteq> [] \<Longrightarrow> last (dropWhile P xs) = last xs"
  by (metis last_appendR takeWhile_dropWhile_id)

lemma trim_ends: "trim s = [] \<or> (\<not> isSpace (hd (trim s)) \<and> \<not> isSpace (last (trim s)))"
proof (cases "trim s = []")
  case True
  then show ?thesis by simp
next
  case False
  define d where "d = dropWhile isSpace s"
  define e where "e = dropWhile isSpace (rev d)"
  have t: "trim s = rev e" by (simp add: trim_def d_def e_def)
  with False have ne: "e \<noteq> []" by simp
  then have rd: "rev d \<noteq> []" by (auto simp: e_def)
  then have dne: "d \<noteq> []" by simp
  from ne have "\<not> isSpace (hd e)" unfolding e_def by (rule hd_dropWhile)
  then have l: "\<not> isSpace (last (trim s))" using ne by (simp add: t last_rev)
  from ne have "last e = last (rev d)" unfolding e_def by (rule last_dropWhile_eq)
  then have "last e = hd d" using dne by (simp add: last_rev)
  moreover from dne have "\<not> isSpace (hd d)" unfolding d_def by (rule hd_dropWhile)
  ultimately have h: "\<not> isSpace (hd (trim s))" using ne by (simp add: t hd_rev)
  from h l show ?thesis by simp
qed

text \<open>
  Claim C8, as stated, at the text \<open>$0-50\<close>: with the currency symbol stripped the text
  is \<open>0-50\<close>, which starts with \<open>0-\<close> and maps to \<open><50\<close>; the code removes pound signs
  only, keeps the dollar sign, finds no pattern and returns \<open>unknown\<close>.
\<close>

theorem mapPriceRange_currency_counterexample:
  "isCurrencySymbol CHR ''$''
   \<and> mapPriceRangeStrippingCurrency ''$0-50'' = ''<50''
   \<and> mapPriceRange ''$0-50'' = ''unknown''
   \<and> mapPriceRange ''0-50'' = ''<50''"
  by code_simp

text \<open>
  Claim C8, amended: \<open>mapPriceRange\<close> works on the text \<open>ct\<close> it gets from its argument by
  removing the pound signs U+00A3 (the one currency symbol it strips), lower-casing and
  trimming: \<open>ct\<close> holds no pound sign and no capital letter and neither begins nor ends
  with white space. It tests \<open>ct\<close> in a fixed order: \<open>500\<close> together with \<open>plus\<close> or \<open>+\<close>
  gives \<open>500+\<close>; else \<open>200 -\<close> or \<open>200-\<close> gives \<open>200-500\<close>; else \<open>100 -\<close> or \<open>100-\<close>
  gives \<open>100-200\<close>; else \<open>50-\<close> or \<open>50 -\<close> gives \<open>50-100\<close>; else \<open>0 -\<close> anywhere or
  \<open>0-\<close> at the start gives \<open><50\<close>; a text that matches none gives \<open>unknown\<close>.
\<close>

theorem mapPriceRange_priority:
  assumes ct: "ct = trim (toLowerCase (filter (\<lambda>c. c \<noteq> pound) priceRangeText))"
  shows
  "((includesStr ct ''500'' \<and> (includesStr ct ''plus'' \<or> includesStr ct ''+''))
      \<longrightarrow> mapPriceRange priceRangeText = ''500+'')
   \<and> (\<not> (includesStr ct ''500'' \<and> (includesStr ct ''plus'' \<or> includesStr ct ''+''))
       \<and> (includesStr ct ''200 -'' \<or> includesStr ct ''200-'')
      \<longrightarrow> mapPriceRange priceRangeText = ''200-500'')
   \<and> (\<not> (includesStr ct ''500'' \<and> (includesStr ct ''plus'' \<or> includesStr ct ''+''))
       \<and> \<not> (includesStr ct ''200 -'' \<or> includesStr ct ''200-'')
       \<and> (includesStr ct ''100 -'' \<or> includesStr ct ''100-'')
      \<longrightarrow> mapPriceRange priceRangeText = ''100-200'')
   \<and> (\<not> (includesStr ct ''500'' \<and> (includesStr ct ''plus'' \<or> includesStr ct ''+''))
       \<and> \<not> (includesStr ct ''200 -'' \<or> includesStr ct ''200-'')
       \<and> \<not> (includesStr ct ''100 -'' \<or> includesStr ct ''100-'')
       \<and> (includesStr ct ''50-'' \<or> includesStr ct ''50 -'')
      \<longrightarrow> mapPriceRange priceRangeText = ''50-100'')
   \<and> (\<not> (includesStr ct ''500'' \<and> (includesStr ct ''plus'' \<or> includesStr ct ''+''))
       \<and> \<not> (includesStr ct ''200 -'' \<or> includesStr ct ''200-'')
       \<and> \<not> (includesStr ct ''100 -'' \<or> includesStr ct ''100-'')
       \<and> \<not> (includesStr ct ''50-'' \<or> includesStr ct ''50 -'')
       \<and> (includesStr ct ''0 -'' \<or> startsWith ct ''0-'')
      \<longrightarrow> mapPriceRange priceRangeText = ''<50'')
   \<and> (\<not> (includesStr ct ''500'' \<and> (includesStr ct ''plus'' \<or> includesStr ct ''+''))
       \<and> \<not> (includesStr ct ''200 -'' \<or> includesStr ct ''200-'')
       \<and> \<not> (includesStr ct ''100 -'' \<or> includesStr ct ''100-'')
       \<and> \<not> (includesStr ct ''50-'' \<or> includesStr ct ''50 -'')
       \<and> \<not> (includesStr ct ''0 -'' \<or> startsWith ct ''0-'')
      \<longrightarrow> mapPriceRange priceRangeText = ''unknown'')
   \<and> pound \<notin> set ct
   \<and> toLowerCase ct = ct
   \<and> (\<forall>c \<in> set ct. \<not> (65 \<le> (of_char c :: nat) \<and> (of_char c :: nat) \<le> 90))
   \<and> (ct = [] \<or> (\<not> isSpace (hd ct) \<and> \<not> isSpace (last ct)))"
proof -
  have c: "cleanText priceRangeText = ct"
    by (simp add: cleanText_def ct)
  have chain: "((includesStr ct ''500'' \<and> (includesStr ct ''plus'' \<or> includesStr ct ''+''))
          \<longrightarrow> mapPriceRange priceRangeText = ''500+'')
       \<and> (\<not> (includesStr ct ''500'' \<and> (includesStr ct ''plus'' \<or> includesStr ct ''+''))
           \<and> (includesStr ct ''200 -'' \<or> includesStr ct ''200-'')
          \<longrightarrow> mapPriceRange priceRangeText = ''200-500'')
       \<and> (\<not> (includesStr ct ''500'' \<and> (includesStr ct ''plus'' \<or> includesStr ct ''+''))
           \<and> \<not> (includesStr ct ''200 -'' \<or> includesStr ct ''200-'')
           \<and> (includesStr ct ''100 -'' \<or> includesStr ct ''100-'')
          \<longrightarrow> mapPriceRange priceRangeText = ''100-200'')
       \<and> (\<not> (includesStr ct ''500'' \<and> (includesStr ct ''plus'' \<or> includesStr ct ''+''))
           \<and> \<not> (includesStr ct ''200 -'' \<or> includesStr ct ''200-'')
           \<and> \<not> (includesStr ct ''100 -'' \<or> includesStr ct ''100-'')
           \<and> (includesStr ct ''50-'' \<or> includesStr ct ''50 -'')
          \<longrightarrow> mapPriceRange priceRangeText = ''50-100'')
       \<and> (\<not> (includesStr ct ''500'' \<and> (includesStr ct ''plus'' \<or> includesStr ct ''+''))
           \<and> \<not> (includesStr ct ''200 -'' \<or> includesStr ct ''200-'')
           \<and> \<not> (includesStr ct ''100 -'' \<or> includesStr ct ''100-'')
           \<and> \<not> (includesStr ct ''50-'' \<or> includesStr ct ''50 -'')
           \<and> (includesStr ct ''0 -'' \<or> startsWith ct ''0-'')
          \<longrightarrow> mapPriceRange priceRangeText = ''<50'')
       \<and> (\<not> (includesStr ct ''500'' \<and> (includesStr ct ''plus'' \<or> includesStr ct ''+''))
           \<and> \<not> (includesStr ct ''200 -'' \<or> includesStr ct ''200-'')
           \<and> \<not> (includesStr ct ''100 -'' \<or> includesStr ct ''100-'')
           \<and> \<not> (includesStr ct ''50-'' \<or> includesStr ct ''50 -'')
           \<and> \<not> (includesStr ct ''0 -'' \<or> startsWith ct ''0-'')
          \<longrightarrow> mapPriceRange priceRangeText = ''unknown'')"
    by (auto simp: mapPriceRange_def Let_def c)
  have sub: "set ct \<subseteq> lowerChar ` {x \<in> set priceRangeText. x \<noteq> pound}"
    unfolding ct using set_trim_subset [of "toLowerCase (filter (\<lambda>c. c \<noteq> pound) priceRangeText)"]
    by (simp add: toLowerCase_def)
  have no_pound: "pound \<notin> set ct"
  proof
    assume "pound \<in> set ct"
    with sub obtain x where "x \<noteq> pound" "lowerChar x = pound" by auto
    with lowerChar_pound show False by blast
  qed
  have lower: "toLowerCase ct = ct"
    unfolding toLowerCase_def
  proof (rule map_idI)
    fix x assume "x \<in> set ct"
    with sub obtain y where "x = lowerChar y" by auto
    then show "lowerChar x = x" by (simp add: lowerChar_idem)
  qed
  have no_capital: "\<forall>c \<in> set ct. \<not> (65 \<le> (of_char c :: nat) \<and> (of_char c :: nat) \<le> 90)"
  proof
    fix x assume "x \<in> set ct"
    with sub obtain y where "x = lowerChar y" by auto
    then show "\<not> (65 \<le> (of_char x :: nat) \<and> (of_char x :: nat) \<le> 90)"
      using lowerChar_not_capital [of y] by simp
  qed
  have trimmed: "ct = [] \<or> (\<not> isSpace (hd ct) \<and> \<not> isSpace (last ct))"
    unfolding ct by (rule trim_ends)
  from chain no_pound lower no_capital trimmed show ?thesis by blast
qed

text \<open>The instance that follows takes the five headings of the page, among them
  \<open>Ukuleles \<pounds>200 - \<pounds>500\<close>, an unrecognised text, a text in capitals between spaces, a
  text that starts with \<open>0-\<close> only once its pound sign is removed, and the same text with a
  dollar sign, which is not removed.\<close>

theorem mapPriceRange_priority_witness:
  "mapPriceRange (''Ukuleles '' @ [pound] @ ''500 plus'') = ''500+''
   \<and> mapPriceRange (''Ukuleles '' @ [pound] @ ''200 - '' @ [pound] @ ''500'') = ''200-500''
   \<and> mapPriceRange (''Ukuleles '' @ [pound] @ ''100 - '' @ [pound] @ ''200'') = ''100-200''
   \<and> mapPriceRange (''Ukuleles '' @ [pound] @ ''50- '' @ [pound] @ ''100'') = ''50-100''
   \<and> mapPriceRange (''Ukuleles '' @ [pound] @ ''0 - '' @ [pound] @ ''50'') = ''<50''
   \<and> mapPriceRange (''Accessories'') = ''unknown''
   \<and> mapPriceRange (''  '' @ [pound] @ ''500 PLUS '') = ''500+''
   \<and> mapPriceRange ([pound] @ ''0-'' @ [pound] @ ''50'') = ''<50''
   \<and> mapPriceRange (''$0-50'') = ''unknown''"
proof -
  define t1 where "t1 = ''Ukuleles '' @ [pound] @ ''500 plus''"
  define t2 where "t2 = ''Ukuleles '' @ [pound] @ ''200 - '' @ [pound] @ ''500''"
  define t3 where "t3 = ''Ukuleles '' @ [pound] @ ''100 - '' @ [pound] @ ''200''"
  define t4 where "t4 = ''Ukuleles '' @ [pound] @ ''50- '' @ [pound] @ ''100''"
  define t5 where "t5 = ''Ukuleles '' @ [pound] @ ''0 - '' @ [pound] @ ''50''"
  define t6 where "t6 = ''Accessories''"
  define t7 where "t7 = ''  '' @ [pound] @ ''500 PLUS ''"
  define t8 where "t8 = [pound] @ ''0-'' @ [pound] @ ''50''"
  define t9 where "t9 = ''$0-50''"
  have c1: "trim (toLowerCase (filter (\<lambda>c. c \<noteq> pound) t1)) = ''ukuleles 500 plus''"
    unfolding t1_def by code_simp
  have h1: "(includesStr ''ukuleles 500 plus'' ''500'' \<and> (includesStr ''ukuleles 500 plus'' ''plus'' \<or> includesStr ''ukuleles 500 plus'' ''+''))"
    by code_simp
  from mapPriceRange_priority [OF c1 [symmetric]] h1
  have r1: "mapPriceRange t1 = ''500+''" by blast
  have c2: "trim (toLowerCase (filter (\<lambda>c. c \<noteq> pound) t2)) = ''ukuleles 200 - 500''"
    unfolding t2_def by code_simp
  have h2: "\<not> (includesStr ''ukuleles 200 - 500'' ''500'' \<and> (includesStr ''ukuleles 200 - 500'' ''plus'' \<or> includesStr ''ukuleles 200 - 500'' ''+''))
      \<and> (includesStr ''ukuleles 200 - 500'' ''200 -'' \<or> includesStr ''ukuleles 200 - 500'' ''200-'')"
    by code_simp
  from mapPriceRange_priority [OF c2 [symmetric]] h2
  have r2: "mapPriceRange t2 = ''200-500''" by blast
  have c3: "trim (toLowerCase (filter (\<lambda>c. c \<noteq> pound) t3)) = ''ukuleles 100 - 200''"
    unfolding t3_def by code_simp
  have h3: "\<not> (includesStr ''ukuleles 100 - 200'' ''500'' \<and> (includesStr ''ukuleles 100 - 200'' ''plus'' \<or> includesStr ''ukuleles 100 - 200'' ''+''))
      \<and> \<not> (includesStr ''ukuleles 100 - 200'' ''200 -'' \<or> includesStr ''ukuleles 100 - 200'' ''200-'')
      \<and> (includesStr ''ukuleles 100 - 200'' ''100 -'' \<or> includesStr ''ukuleles 100 - 200'' ''100-'')"
    by code_simp
  from mapPriceRange_priority [OF c3 [symmetric]] h3
  have r3: "mapPriceRange t3 = ''100-200''" by blast
  have c4: "trim (toLowerCase (filter (\<lambda>c. c \<noteq> pound) t4)) = ''ukuleles 50- 100''"
    unfolding t4_def by code_simp
  have h4: "\<not> (includesStr ''ukuleles 50- 100'' ''500'' \<and> (includesStr ''ukuleles 50- 100'' ''plus'' \<or> includesStr ''ukuleles 50- 100'' ''+''))
      \<and> \<not> (includesStr ''ukuleles 50- 100'' ''200 -'' \<or> includesStr ''ukuleles 50- 100'' ''200-'')
      \<and> \<not> (includesStr ''ukuleles 50- 100'' ''100 -'' \<or> includesStr ''ukuleles 50- 100'' ''100-'')
      \<and> (includesStr ''ukuleles 50- 100'' ''50-'' \<or> includesStr ''ukuleles 50- 100'' ''50 -'')"
    by code_simp
  from mapPriceRange_priority [OF c4 [symmetric]] h4
  have r4: "mapPriceRange t4 = ''50-100''" by blast
  have c5: "trim (toLowerCase (filter (\<lambda>c. c \<noteq> pound) t5)) = ''ukuleles 0 - 50''"
    unfolding t5_def by code_simp
  have h5: "\<not> (includesStr ''ukuleles 0 - 50'' ''500'' \<and> (includesStr ''ukuleles 0 - 50'' ''plus'' \<or> includesStr ''ukuleles 0 - 50'' ''+''))
      \<and> \<not> (includesStr ''ukuleles 0 - 50'' ''200 -'' \<or> includesStr ''ukuleles 0 - 50'' ''200-'')
      \<and> \<not> (includesStr ''ukuleles 0 - 50'' ''100 -'' \<or> includesStr ''ukuleles 0 - 50'' ''100-'')
      \<and> \<not> (includesStr ''ukuleles 0 - 50'' ''50-'' \<or> includesStr ''ukuleles 0 - 50'' ''50 -'')
      \<and> (includesStr ''ukuleles 0 - 50'' ''0 -'' \<or> startsWith ''ukuleles 0 - 50'' ''0-'')"
    by code_simp
  from mapPriceRange_priority [OF c5 [symmetric]] h5
  have r5: "mapPriceRange t5 = ''<50''" by blast
  have c6: "trim (toLowerCase (filter (\<lambda>c. c \<noteq> pound) t6)) = ''accessories''"
    unfolding t6_def by code_simp
  have h6: "\<not> (includesStr ''accessories'' ''500'' \<and> (includesStr ''accessories'' ''plus'' \<or> includesStr ''accessories'' ''+''))
      \<and> \<not> (includesStr ''accessories'' ''200 -'' \<or> includesStr ''accessories'' ''200-'')
      \<and> \<not> (includesStr ''accessories'' ''100 -'' \<or> includesStr ''accessories'' ''100-'')
      \<and> \<not> (includesStr ''accessories'' ''50-'' \<or> includesStr ''accessories'' ''50 -'')
      \<and> \<not> (includesStr ''accessories'' ''0 -'' \<or> startsWith ''accessories'' ''0-'')"
    by code_simp
  from mapPriceRange_priority [OF c6 [symmetric]] h6
  have r6: "mapPriceRange t6 = ''unknown''" by blast
  have c7: "trim (toLowerCase (filter (\<lambda>c. c \<noteq> pound) t7)) = ''500 plus''"
    unfolding t7_def by code_simp
  have h7: "(includesStr ''500 plus'' ''500'' \<and> (includesStr ''500 plus'' ''plus'' \<or> includesStr ''500 plus'' ''+''))"
    by code_simp
  from mapPriceRange_priority [OF c7 [symmetric]] h7
  have r7: "mapPriceRange t7 = ''500+''" by blast
  have c8: "trim (toLowerCase (filter (\<lambda>c. c \<noteq> pound) t8)) = ''0-50''"
    unfolding t8_def by code_simp
  have h8: "\<not> (includesStr ''0-50'' ''500'' \<and> (includesStr ''0-50'' ''plus'' \<or> includesStr ''0-50'' ''+''))
      \<and> \<not> (includesStr ''0-50'' ''200 -'' \<or> includesStr ''0-50'' ''200-'')
      \<and> \<not> (includesStr ''0-50'' ''100 -'' \<or> includesStr ''0-50'' ''100-'')
      \<and> \<not> (includesStr ''0-50'' ''50-'' \<or> includesStr ''0-50'' ''50 -'')
      \<and> (includesStr ''0-50'' ''0 -'' \<or> startsWith ''0-50'' ''0-'')"
    by code_simp
  from mapPriceRange_priority [OF c8 [symmetric]] h8
  have r8: "mapPriceRange t8 = ''<50''" by blast
  have c9: "trim (toLowerCase (filter (\<lambda>c. c \<noteq> pound) t9)) = ''$0-50''"
    unfolding t9_def by code_simp
  have h9: "\<not> (includesStr ''$0-50'' ''500'' \<and> (includesStr ''$0-50'' ''plus'' \<or> includesStr ''$0-50'' ''+''))
      \<and> \<not> (includesStr ''$0-50'' ''200 -'' \<or> includesStr ''$0-50'' ''200-'')
      \<and> \<not> (includesStr ''$0-50'' ''100 -'' \<or> includesStr ''$0-50'' ''100-'')
      \<and> \<not> (includesStr ''$0-50'' ''50-'' \<or> includesStr ''$0-50'' ''50 -'')
      \<and> \<not> (includesStr ''$0-50'' ''0 -'' \<or> startsWith ''$0-50'' ''0-'')"
    by code_simp
  from mapPriceRange_priority [OF c9 [symmetric]] h9
  have r9: "mapPriceRange t9 = ''unknown''" by blast
  from r1 r2 r3 r4 r5 r6 r7 r8 r9 show ?thesis
    unfolding t1_def t2_def t3_def t4_def t5_def t6_def t7_def t8_def t9_def by blast
qed

section \<open>Properties of the price attribution\<close>

lemma foldl_priceNode:
  "foldl (\<lambda>priceNode priceTitleNode.
            if \<not> isHigherInDom nd priceTitleNode then Some priceTitleNode else priceNode) acc ts
   = (if filter (\<lambda>t. startIndex t \<le> startIndex nd) ts = [] then acc
      else Some (last (filter (\<lambda>t. startIndex t \<le> startIndex nd) ts)))"
  by (induction ts rule: rev_induct) (simp_all add: isHigherInDom_def)

lemma priceNodeOf_last:
  "priceNodeOf nd (t # ts) =
     Some (if filter (\<lambda>h. startIndex h \<le> startIndex nd) (t # ts) = [] then t
           else last (filter (\<lambda>h. startIndex h \<le> startIndex nd) (t # ts)))"
  unfolding priceNodeOf_def foldl_priceNode
  by simp

lemma sorted_wrt_last_greatest:
  assumes "sorted_wrt (\<lambda>a b. startIndex a \<le> startIndex (b::node)) xs" and "x \<in> set xs"
  shows "startIndex x \<le> startIndex (last xs)"
  using assms
proof (induction xs)
  case Nil
  then show ?case by simp
next
  case (Cons y ys)
  show ?case
  proof (cases "ys = []")
    case True
    with Cons.prems show ?thesis by simp
  next
    case False
    then have l: "last (y # ys) = last ys" by simp
    have "last ys \<in> set ys" using False by simp
    with Cons.prems have "startIndex y \<le> startIndex (last ys)" by simp
    moreover have "x \<in> set ys \<Longrightarrow> startIndex x \<le> startIndex (last ys)"
      using Cons.IH Cons.prems by simp
    ultimately show ?thesis using Cons.prems(2) l by auto
  qed
qed

text \<open>
  Claim C1, as stated, on a page whose headings stand in another order than the keys of the
  price table: the heading \<open>Ukuleles \<pounds>500 plus\<close> starts at 10, the heading
  \<open>Ukuleles \<pounds>0 - \<pounds>50\<close> at 100 and the anchor at 150. The collected list holds the
  headings in key order (100, then 10), the loop keeps the last of them that does not start
  after the anchor, and the anchor gets \<open>500+\<close>, although the heading with the largest
  start position not after the anchor is the one at 100, whose category is \<open><50\<close>.
\<close>

theorem extractReviewPrice_order_counterexample:
  "priceTitleNodes
     [\<lparr>spanText = ''Ukuleles '' @ [pound] @ ''500 plus'',
       firstChild = \<lparr>startIndex = 10, data = Some (''Ukuleles '' @ [pound] @ ''500 plus'')\<rparr>\<rparr>,
      \<lparr>spanText = ''Ukuleles '' @ [pound] @ ''0 - '' @ [pound] @ ''50'',
       firstChild = \<lparr>startIndex = 100, data = Some (''Ukuleles '' @ [pound] @ ''0 - '' @ [pound] @ ''50'')\<rparr>\<rparr>]
   = [\<lparr>startIndex = 100, data = Some (''Ukuleles '' @ [pound] @ ''0 - '' @ [pound] @ ''50'')\<rparr>,
      \<lparr>startIndex = 10, data = Some (''Ukuleles '' @ [pound] @ ''500 plus'')\<rparr>]
   \<and> extractReviewPrice \<lparr>startIndex = 150, data = None\<rparr>
        [\<lparr>startIndex = 100, data = Some (''Ukuleles '' @ [pound] @ ''0 - '' @ [pound] @ ''50'')\<rparr>,
         \<lparr>startIndex = 10, data = Some (''Ukuleles '' @ [pound] @ ''500 plus'')\<rparr>]
      = Inr ''500+''
   \<and> (10::nat) \<le> 100 \<and> (100::nat) \<le> 150
   \<and> mapPriceRange (''Ukuleles '' @ [pound] @ ''0 - '' @ [pound] @ ''50'') = ''<50''"
  by code_simp

text \<open>
  Claim C1, amended: when the collected heading list is non-empty and ascending in start
  position (as it is when the headings stand on the page in the order of the price table),
  \<open>extractReviewPrice\<close> gives the anchor the category of the heading with the largest
  start position that is not after the anchor's; when no heading starts at or before the
  anchor, it uses the first heading of the list. The instance that follows is a page with
  two headings, three anchors after the second and one anchor before the first.
\<close>

theorem extractReviewPrice_nearest_preceding:
  assumes ne: "priceTitles \<noteq> []"
    and srt: "sorted_wrt (\<lambda>a b. startIndex a \<le> startIndex b) priceTitles"
  shows "\<exists>p. priceNodeOf nd priceTitles = Some p
     \<and> p \<in> set priceTitles
     \<and> extractReviewPrice nd priceTitles =
         (case data p of None \<Rightarrow> Inl TypeError | Some d \<Rightarrow> Inr (mapPriceRange d))
     \<and> (if \<exists>h \<in> set priceTitles. startIndex h \<le> startIndex nd
        then startIndex p \<le> startIndex nd
          \<and> (\<forall>h \<in> set priceTitles. startIndex h \<le> startIndex nd \<longrightarrow> startIndex h \<le> startIndex p)
        else p = hd priceTitles)"
proof -
  from ne obtain t ts where pt: "priceTitles = t # ts" by (cases priceTitles) auto
  define fs where "fs = filter (\<lambda>h. startIndex h \<le> startIndex nd) priceTitles"
  define p where "p = (if fs = [] then t else last fs)"
  have sel: "priceNodeOf nd priceTitles = Some p"
    unfolding pt p_def fs_def by (simp only: priceNodeOf_last pt)
  have price: "extractReviewPrice nd priceTitles =
      (case data p of None \<Rightarrow> Inl TypeError | Some d \<Rightarrow> Inr (mapPriceRange d))"
    by (simp add: extractReviewPrice_def sel)
  show ?thesis
  proof (cases "fs = []")
    case True
    then have none: "\<not> (\<exists>h \<in> set priceTitles. startIndex h \<le> startIndex nd)"
      by (auto simp: fs_def filter_empty_conv)
    from True have "p = hd priceTitles" by (simp add: p_def pt)
    moreover have "p \<in> set priceTitles" using \<open>p = hd priceTitles\<close> ne by simp
    ultimately show ?thesis using sel price none by auto
  next
    case False
    then have pl: "p = last fs" by (simp add: p_def)
    with False have pin: "p \<in> set fs" by simp
    then have p1: "p \<in> set priceTitles" and p2: "startIndex p \<le> startIndex nd"
      by (simp_all add: fs_def)
    have sfs: "sorted_wrt (\<lambda>a b. startIndex a \<le> startIndex b) fs"
      unfolding fs_def using srt by (rule sorted_wrt_filter)
    have p3: "\<forall>h \<in> set priceTitles. startIndex h \<le> startIndex nd \<longrightarrow> startIndex h \<le> startIndex p"
    proof (intro ballI impI)
      fix h assume "h \<in> set priceTitles" "startIndex h \<le> startIndex nd"
      then have "h \<in> set fs" by (simp add: fs_def)
      with sfs show "startIndex h \<le> startIndex p"
        unfolding pl by (rule sorted_wrt_last_greatest)
    qed
    have ex: "\<exists>h \<in> set priceTitles. startIndex h \<le> startIndex nd"
      using p1 p2 by blast
    show ?thesis
      using sel p1 price ex p2 p3 by (intro exI [of _ p]) simp
  qed
qed

theorem extractReviewPrice_nearest_preceding_witness:
  "priceTitleNodes
     [\<lparr>spanText = ''Ukuleles '' @ [pound] @ ''0 - '' @ [pound] @ ''50'',
       firstChild = \<lparr>startIndex = 20, data = Some (''Ukuleles '' @ [pound] @ ''0 - '' @ [pound] @ ''50'')\<rparr>\<rparr>,
      \<lparr>spanText = ''Ukuleles '' @ [pound] @ ''50- '' @ [pound] @ ''100'',
       firstChild = \<lparr>startIndex = 400, data = Some (''Ukuleles '' @ [pound] @ ''50- '' @ [pound] @ ''100'')\<rparr>\<rparr>]
   = [\<lparr>startIndex = 20, data = Some (''Ukuleles '' @ [pound] @ ''0 - '' @ [pound] @ ''50'')\<rparr>,
      \<lparr>startIndex = 400, data = Some (''Ukuleles '' @ [pound] @ ''50- '' @ [pound] @ ''100'')\<rparr>]
   \<and> extractReviewPrice \<lparr>startIndex = 500, data = None\<rparr>
        [\<lparr>startIndex = 20, data = Some (''Ukuleles '' @ [pound] @ ''0 - '' @ [pound] @ ''50'')\<rparr>,
         \<lparr>startIndex = 400, data = Some (''Ukuleles '' @ [pound] @ ''50- '' @ [pound] @ ''100'')\<rparr>]
      = Inr ''50-100''
   \<and> extractReviewPrice \<lparr>startIndex = 600, data = None\<rparr>
        [\<lparr>startIndex = 20, data = Some (''Ukuleles '' @ [pound] @ ''0 - '' @ [pound] @ ''50'')\<rparr>,
         \<lparr>startIndex = 400, data = Some (''Ukuleles '' @ [pound] @ ''50- '' @ [pound] @ ''100'')\<rparr>]
      = Inr ''50-100''
   \<and> extractReviewPrice \<lparr>startIndex = 700, data = None\<rparr>
        [\<lparr>startIndex = 20, data = Some (''Ukuleles '' @ [pound] @ ''0 - '' @ [pound] @ ''50'')\<rparr>,
         \<lparr>startIndex = 400, data = Some (''Ukuleles '' @ [pound] @ ''50- '' @ [pound] @ ''100'')\<rparr>]
      = Inr ''50-100''
   \<and> extractReviewPrice \<lparr>startIndex = 5, data = None\<rparr>
        [\<lparr>startIndex = 20, data = Some (''Ukuleles '' @ [pound] @ ''0 - '' @ [pound] @ ''50'')\<rparr>,
         \<lparr>startIndex = 400, data = Some (''Ukuleles '' @ [pound] @ ''50- '' @ [pound] @ ''100'')\<rparr>]
      = Inr ''<50''"
proof -
  define t1 where "t1 = ''Ukuleles '' @ [pound] @ ''0 - '' @ [pound] @ ''50''"
  define t2 where "t2 = ''Ukuleles '' @ [pound] @ ''50- '' @ [pound] @ ''100''"
  define h1 where "h1 = \<lparr>startIndex = 20, data = Some t1\<rparr>"
  define h2 where "h2 = \<lparr>startIndex = 400, data = Some t2\<rparr>"
  have s1: "startIndex h1 = 20" and s2: "startIndex h2 = 400"
    and d1: "data h1 = Some t1" and d2: "data h2 = Some t2"
    by (simp_all add: h1_def h2_def)
  have m1: "mapPriceRange t1 = ''<50''"
    unfolding t1_def by code_simp
  have m2: "mapPriceRange t2 = ''50-100''"
    unfolding t2_def by code_simp
  have ne: "[h1, h2] \<noteq> []" by simp
  have srt: "sorted_wrt (\<lambda>a b. startIndex a \<le> startIndex b) [h1, h2]"
    by (simp add: s1 s2)
  have after: "extractReviewPrice \<lparr>startIndex = k, data = None\<rparr> [h1, h2] = Inr ''50-100''"
    if "400 \<le> k" for k
    using extractReviewPrice_nearest_preceding [OF ne srt, of "\<lparr>startIndex = k, data = None\<rparr>"] that
    by (auto simp: s1 s2 d1 d2 m1 m2 split: if_splits)
  have before: "extractReviewPrice \<lparr>startIndex = 5, data = None\<rparr> [h1, h2] = Inr ''<50''"
    using extractReviewPrice_nearest_preceding [OF ne srt, of "\<lparr>startIndex = 5, data = None\<rparr>"]
    by (auto simp: s1 s2 d1 d2 m1 m2 split: if_splits)
  have coll: "priceTitleNodes [\<lparr>spanText = t1, firstChild = h1\<rparr>, \<lparr>spanText = t2, firstChild = h2\<rparr>]
     = [h1, h2]"
    unfolding h1_def h2_def t1_def t2_def by code_simp
  show ?thesis
    using coll after [of 500] after [of 600] after [of 700] before
    unfolding h1_def h2_def t1_def t2_def by simp
qed

section \<open>Properties of the sibling scan\<close>

text \<open>The break of the first loop is dead code: an element is skipped whatever its name.
  On siblings without a \<open>br\<close> or \<open>div\<close> element the loop is the scan that stops at
  them.\<close>

lemma collectFollowing_skips_tag:
  "length followingText < 100 \<Longrightarrow>
     collectFollowing (TagNode name # rest) followingText = collectFollowing rest followingText"
  by auto

lemma collectFollowing_without_breaks:
  "TagNode ''br'' \<notin> set siblings \<Longrightarrow> TagNode ''div'' \<notin> set siblings \<Longrightarrow>
     collectFollowing siblings followingText = scanUntilBreak siblings followingText"
  by (induction siblings followingText rule: collectFollowing.induct)
     (auto split: sibling.splits)

text \<open>
  Claim C4 at the sibling list \<open><br>\<close>, \<open><a>\<close>, text: the test
  \<open>name === 'br' && name === 'div'\<close> never holds, so the loop of the code does not stop at
  the line break and collects the rating text of the next line, where a scan that stops at
  \<open>br\<close> or \<open>div\<close> collects nothing.
\<close>

theorem collectFollowing_passes_line_break:
  "collectFollowing [TagNode ''br'', TagNode ''a'', TextNode '' - 8 out of 10 (Jan 2020)''] []
     = '' - 8 out of 10 (Jan 2020)''
   \<and> scanUntilBreak [TagNode ''br'', TagNode ''a'', TextNode '' - 8 out of 10 (Jan 2020)''] [] = []
   \<and> followingTextOf [TagNode ''br'', TagNode ''a'', TextNode '' - 8 out of 10 (Jan 2020)''] None []
     = Inr '' - 8 out of 10 (Jan 2020)''"
  by code_simp

section \<open>Properties of the run and of the metadata file\<close>

lemma set_foldl_newSet:
  "set (foldl (\<lambda>s x. if x \<in> set s then s else s @ [x]) acc xs) = set acc \<union> set xs"
  by (induction xs arbitrary: acc) auto

lemma distinct_foldl_newSet:
  "distinct acc \<Longrightarrow> distinct (foldl (\<lambda>s x. if x \<in> set s then s else s @ [x]) acc xs)"
  by (induction xs arbitrary: acc) auto

lemma set_newSet: "set (newSet xs) = set xs"
  by (simp add: newSet_def set_foldl_newSet)

lemma distinct_newSet: "distinct (newSet xs)"
  by (simp add: newSet_def distinct_foldl_newSet)

lemma foldl_newSet_distinct:
  "distinct (acc @ xs) \<Longrightarrow> foldl (\<lambda>s x. if x \<in> set s then s else s @ [x]) acc xs = acc @ xs"
  by (induction xs arbitrary: acc) auto

lemma newSet_distinct: "distinct xs \<Longrightarrow> newSet xs = xs"
  using foldl_newSet_distinct [of "[]" xs] by (simp add: newSet_def)

text \<open>
  Claim C2 at an extraction that yields no review: \<open>extractAllReviews\<close> has already saved
  the metadata (with no brand) when \<open>scrape\<close> finds the list empty and throws, so the
  metadata file has been written at the throw; the reviews file has not.
\<close>

theorem scrape_zero_reviews_writes_metadata:
  "scrape clk (Inr []) fs =
     (Inl NoReviewsFound,
      fs\<lparr>metadataFile := Some \<lparr>lastUpdated = isoNow clk, brands = [],
            sizes = [''Soprano'', ''Concert'', ''Tenor'', ''Baritone'', ''Sopranino'', ''Other''],
            priceRanges = [''<50'', ''50-100'', ''100-200'', ''200-500'', ''500+'']\<rparr>\<rparr>)"
  by (simp add: scrape_def extractAllReviews_def saveBrandMetadata_def newSet_def Let_def)

text \<open>
  Claim C10: for a review list with a record whose price range is \<open>unknown\<close>,
  \<open>saveBrandMetadata\<close> throws the price-range error and leaves the files as they were:
  its allow-list is the five categories without \<open>unknown\<close>.
\<close>

theorem saveBrandMetadata_unknown_throws:
  assumes "r \<in> set reviews" and "priceRange r = ''unknown''"
  shows "saveBrandMetadata clk reviews fs = (Inl UnexpectedPriceRanges, fs)"
proof -
  from assms have "''unknown'' \<in> set (newSet (map priceRange reviews))"
    by (force simp: set_newSet)
  moreover have "''unknown'' \<notin> set [''<50'', ''50-100'', ''100-200'', ''200-500'', ''500+'']"
    by simp
  ultimately have "\<not> list_all (\<lambda>pr. pr \<in> set [''<50'', ''50-100'', ''100-200'', ''200-500'', ''500+''])
      (newSet (map priceRange reviews))"
    unfolding list_all_iff by blast
  then show ?thesis
    by (simp add: saveBrandMetadata_def Let_def)
qed

theorem saveBrandMetadata_unknown_throws_witness:
  "saveBrandMetadata \<lparr>isoNow = ''2025-10-02T00:00:00.000Z'', msNow = 0\<rparr>
     [\<lparr>sizeCategory = ''soprano'', brand = ''KALA'', model = ''KA-S'', priceRange = ''<50'',
       url = ''https://www.gotaukulele.com/2020/01/kala-ka-s.html'', rating = (9::nat),
       reviewDate = Some ''2020-01-01''\<rparr>,
      \<lparr>sizeCategory = ''tenor'', brand = ''OHANA'', model = ''TK-10'', priceRange = ''unknown'',
       url = ''https://www.gotaukulele.com/2021/03/ohana-tk-10.html'', rating = 8,
       reviewDate = None\<rparr>]
     \<lparr>metadataFile = None, reviewsFile = None\<rparr>
   = (Inl UnexpectedPriceRanges, \<lparr>metadataFile = None, reviewsFile = None\<rparr>)"
  by (rule saveBrandMetadata_unknown_throws
      [of "\<lparr>sizeCategory = ''tenor'', brand = ''OHANA'', model = ''TK-10'', priceRange = ''unknown'',
       url = ''https://www.gotaukulele.com/2021/03/ohana-tk-10.html'', rating = 8,
       reviewDate = None\<rparr>"]) simp_all

section \<open>Properties of the diff reports\<close>

lemma filter_absent_all:
  "set xs \<subseteq> S \<Longrightarrow> filter (\<lambda>x. x \<notin> S) xs = []"
  by (auto simp: filter_empty_conv)

lemma filter_url_present:
  "set xs \<subseteq> set ys \<Longrightarrow> filter (\<lambda>item. url item \<notin> set (map url ys)) xs = []"
  by (auto simp: filter_empty_conv)

lemma filter_foldl_newSet:
  "filter P (foldl (\<lambda>s x. if x \<in> set s then s else s @ [x]) acc xs)
     = foldl (\<lambda>s x. if x \<in> set s then s else s @ [x]) (filter P acc) (filter P xs)"
  by (induction xs arbitrary: acc) auto

lemma filter_newSet: "filter P (newSet xs) = newSet (filter P xs)"
  using filter_foldl_newSet [of P "[]" xs] by (simp add: newSet_def)

text \<open>
  Claim C5, as stated, at a previous list that holds two records with one URL and a current
  list that is the previous one without the second of them: the URL is still in the current
  list, so \<open>removed\<close> is empty in both implementations and does not name the record that
  was taken out.
\<close>

theorem diff_removed_counterexample:
  "url sampleKalaRelisted = url sampleKala
   \<and> sampleKalaRelisted \<noteq> sampleKala
   \<and> removed (changes (generateDiffReport (Some [sampleKala, sampleKalaRelisted]) [sampleKala])) = []
   \<and> removed (changes (ChangeDetector_generateDiffReport (Some [sampleKala, sampleKalaRelisted])
        [sampleKala])) = []"
  by (simp add: generateDiffReport_def ChangeDetector_generateDiffReport_def Let_def newSet_def
      sampleKalaRelisted_def sampleKala_def)

text \<open>
  Claim C5, amended: both diff implementations classify by equality of URLs. \<open>new\<close> is the list of
  the current records whose URL no previous record has; \<open>removed\<close> is, in the scraper,
  the list of the distinct previous URLs that no current record has and, in the change
  detector, the list of the previous records whose URL no current record has. When the
  current list is the previous one with one record of a fresh URL added, \<open>new\<close> is that
  record alone and \<open>removed\<close> is empty; when the current list is the previous one without
  one record, whose URL none of the remaining records has (a URL identifies a review),
  \<open>removed\<close> is that URL, or that record, alone and \<open>new\<close> is empty.
\<close>

theorem diff_reports_by_url:
  fixes previous current xs ys :: "'n review list" and r :: "'n review"
  shows
  "newItems (changes (generateDiffReport (Some previous) current))
     = filter (\<lambda>item. url item \<notin> set (map url previous)) current
   \<and> set (removed (changes (generateDiffReport (Some previous) current)))
     = {u. u \<in> set (map url previous) \<and> u \<notin> set (map url current)}
   \<and> distinct (removed (changes (generateDiffReport (Some previous) current)))
   \<and> newItems (changes (ChangeDetector_generateDiffReport (Some previous) current))
     = filter (\<lambda>item. url item \<notin> set (map url previous)) current
   \<and> removed (changes (ChangeDetector_generateDiffReport (Some previous) current))
     = filter (\<lambda>item. url item \<notin> set (map url current)) previous
   \<and> newItems (changes (generateDiffReport None current)) = current
   \<and> removed (changes (generateDiffReport None current)) = []
   \<and> newItems (changes (ChangeDetector_generateDiffReport None current)) = current
   \<and> removed (changes (ChangeDetector_generateDiffReport None current)) = []
   \<and> (url r \<notin> set (map url (xs @ ys)) \<longrightarrow>
        newItems (changes (generateDiffReport (Some (xs @ ys)) (xs @ r # ys))) = [r]
        \<and> removed (changes (generateDiffReport (Some (xs @ ys)) (xs @ r # ys))) = []
        \<and> newItems (changes (ChangeDetector_generateDiffReport (Some (xs @ ys)) (xs @ r # ys))) = [r]
        \<and> removed (changes (ChangeDetector_generateDiffReport (Some (xs @ ys)) (xs @ r # ys))) = [])
   \<and> (url r \<notin> set (map url (xs @ ys)) \<longrightarrow>
        newItems (changes (generateDiffReport (Some (xs @ r # ys)) (xs @ ys))) = []
        \<and> removed (changes (generateDiffReport (Some (xs @ r # ys)) (xs @ ys))) = [url r]
        \<and> newItems (changes (ChangeDetector_generateDiffReport (Some (xs @ r # ys)) (xs @ ys))) = []
        \<and> removed (changes (ChangeDetector_generateDiffReport (Some (xs @ r # ys)) (xs @ ys))) = [r])"
proof -
  have sn: "newItems (changes (generateDiffReport (Some p) c))
      = filter (\<lambda>item. url item \<notin> set (map url p)) c" for p c :: "'n review list"
    by (simp add: generateDiffReport_def Let_def set_newSet)
  have sr: "removed (changes (generateDiffReport (Some p) c))
      = filter (\<lambda>u. u \<notin> set (map url c)) (newSet (map url p))" for p c :: "'n review list"
    by (simp add: generateDiffReport_def Let_def set_newSet)
  have dn: "newItems (changes (ChangeDetector_generateDiffReport (Some p) c))
      = filter (\<lambda>item. url item \<notin> set (map url p)) c" for p c :: "'n review list"
    by (simp add: ChangeDetector_generateDiffReport_def Let_def)
  have dr: "removed (changes (ChangeDetector_generateDiffReport (Some p) c))
      = filter (\<lambda>item. url item \<notin> set (map url c)) p" for p c :: "'n review list"
    by (simp add: ChangeDetector_generateDiffReport_def Let_def)
  have g2: "set (removed (changes (generateDiffReport (Some previous) current)))
     = {u. u \<in> set (map url previous) \<and> u \<notin> set (map url current)}"
    unfolding sr by (auto simp: set_newSet)
  have g3: "distinct (removed (changes (generateDiffReport (Some previous) current)))"
    unfolding sr by (simp add: distinct_newSet)
  have plus: "newItems (changes (generateDiffReport (Some (xs @ ys)) (xs @ r # ys))) = [r]
        \<and> removed (changes (generateDiffReport (Some (xs @ ys)) (xs @ r # ys))) = []
        \<and> newItems (changes (ChangeDetector_generateDiffReport (Some (xs @ ys)) (xs @ r # ys))) = [r]
        \<and> removed (changes (ChangeDetector_generateDiffReport (Some (xs @ ys)) (xs @ r # ys))) = []"
    if fresh: "url r \<notin> set (map url (xs @ ys))"
  proof -
    have a: "filter (\<lambda>item. url item \<notin> set (map url (xs @ ys))) xs = []"
      by (rule filter_url_present) simp
    have b: "filter (\<lambda>item. url item \<notin> set (map url (xs @ ys))) ys = []"
      by (rule filter_url_present) simp
    have n: "filter (\<lambda>item. url item \<notin> set (map url (xs @ ys))) (xs @ r # ys) = [r]"
      using fresh by (simp only: filter_append filter.simps a b) simp
    have c: "filter (\<lambda>u. u \<notin> set (map url (xs @ r # ys))) (newSet (map url (xs @ ys))) = []"
      by (rule filter_absent_all) (auto simp: set_newSet)
    have d: "filter (\<lambda>item. url item \<notin> set (map url (xs @ r # ys))) (xs @ ys) = []"
      by (rule filter_url_present) auto
    show ?thesis
      unfolding sn sr dn dr using n c d by simp
  qed
  have minus: "newItems (changes (generateDiffReport (Some (xs @ r # ys)) (xs @ ys))) = []
        \<and> removed (changes (generateDiffReport (Some (xs @ r # ys)) (xs @ ys))) = [url r]
        \<and> newItems (changes (ChangeDetector_generateDiffReport (Some (xs @ r # ys)) (xs @ ys))) = []
        \<and> removed (changes (ChangeDetector_generateDiffReport (Some (xs @ r # ys)) (xs @ ys))) = [r]"
    if gone: "url r \<notin> set (map url (xs @ ys))"
  proof -
    have n: "filter (\<lambda>item. url item \<notin> set (map url (xs @ r # ys))) (xs @ ys) = []"
      by (rule filter_url_present) auto
    have a: "filter (\<lambda>item. url item \<notin> set (map url (xs @ ys))) xs = []"
      by (rule filter_url_present) simp
    have b: "filter (\<lambda>item. url item \<notin> set (map url (xs @ ys))) ys = []"
      by (rule filter_url_present) simp
    have d: "filter (\<lambda>item. url item \<notin> set (map url (xs @ ys))) (xs @ r # ys) = [r]"
      using gone by (simp only: filter_append filter.simps a b) simp
    have a': "filter (\<lambda>u. u \<notin> set (map url (xs @ ys))) (map url xs) = []"
      by (rule filter_absent_all) auto
    have b': "filter (\<lambda>u. u \<notin> set (map url (xs @ ys))) (map url ys) = []"
      by (rule filter_absent_all) auto
    have fl: "filter (\<lambda>u. u \<notin> set (map url (xs @ ys))) (map url (xs @ r # ys)) = [url r]"
      using gone by (simp only: map_append list.map filter_append filter.simps a' b') simp
    have c: "filter (\<lambda>u. u \<notin> set (map url (xs @ ys))) (newSet (map url (xs @ r # ys))) = [url r]"
      unfolding filter_newSet fl by (simp add: newSet_def)
    show ?thesis
      unfolding sn sr dn dr using n c d by simp
  qed
  have first_run: "newItems (changes (generateDiffReport None current)) = current
      \<and> removed (changes (generateDiffReport None current)) = []
      \<and> newItems (changes (ChangeDetector_generateDiffReport None current)) = current
      \<and> removed (changes (ChangeDetector_generateDiffReport None current)) = []"
    by (simp add: generateDiffReport_def ChangeDetector_generateDiffReport_def Let_def newSet_def)
  from sn dn dr g2 g3 first_run plus minus show ?thesis by blast
qed

theorem diff_reports_by_url_witness:
  "newItems (changes (generateDiffReport (Some [sampleKala, sampleOhana])
       [sampleKala, sampleOhana, sampleFlight])) = [sampleFlight]
   \<and> removed (changes (generateDiffReport (Some [sampleKala, sampleOhana])
       [sampleKala, sampleOhana, sampleFlight])) = []
   \<and> newItems (changes (ChangeDetector_generateDiffReport (Some [sampleKala, sampleOhana])
       [sampleKala, sampleOhana, sampleFlight])) = [sampleFlight]
   \<and> removed (changes (ChangeDetector_generateDiffReport (Some [sampleKala, sampleOhana])
       [sampleKala, sampleOhana, sampleFlight])) = []
   \<and> newItems (changes (generateDiffReport (Some [sampleKala, sampleFlight, sampleOhana])
       [sampleKala, sampleOhana])) = []
   \<and> removed (changes (generateDiffReport (Some [sampleKala, sampleFlight, sampleOhana])
       [sampleKala, sampleOhana])) = [url sampleFlight]
   \<and> newItems (changes (ChangeDetector_generateDiffReport (Some [sampleKala, sampleFlight, sampleOhana])
       [sampleKala, sampleOhana])) = []
   \<and> removed (changes (ChangeDetector_generateDiffReport (Some [sampleKala, sampleFlight, sampleOhana])
       [sampleKala, sampleOhana])) = [sampleFlight]"
proof -
  have fresh1: "url sampleFlight \<notin> set (map url ([sampleKala, sampleOhana] @ []))"
    by (simp add: sampleKala_def sampleOhana_def sampleFlight_def)
  have fresh2: "url sampleFlight \<notin> set (map url ([sampleKala] @ [sampleOhana]))"
    by (simp add: sampleKala_def sampleOhana_def sampleFlight_def)
  note plus = diff_reports_by_url
    [where r = sampleFlight and xs = "[sampleKala, sampleOhana]" and ys = "[]"]
  note minus = diff_reports_by_url
    [where r = sampleFlight and xs = "[sampleKala]" and ys = "[sampleOhana]"]
  from plus fresh1
  have p: "newItems (changes (generateDiffReport (Some ([sampleKala, sampleOhana] @ []))
              ([sampleKala, sampleOhana] @ sampleFlight # []))) = [sampleFlight]
        \<and> removed (changes (generateDiffReport (Some ([sampleKala, sampleOhana] @ []))
              ([sampleKala, sampleOhana] @ sampleFlight # []))) = []
        \<and> newItems (changes (ChangeDetector_generateDiffReport (Some ([sampleKala, sampleOhana] @ []))
              ([sampleKala, sampleOhana] @ sampleFlight # []))) = [sampleFlight]
        \<and> removed (changes (ChangeDetector_generateDiffReport (Some ([sampleKala, sampleOhana] @ []))
              ([sampleKala, sampleOhana] @ sampleFlight # []))) = []"
    by blast
  from minus fresh2
  have m: "newItems (changes (generateDiffReport (Some ([sampleKala] @ sampleFlight # [sampleOhana]))
              ([sampleKala] @ [sampleOhana]))) = []
        \<and> removed (changes (generateDiffReport (Some ([sampleKala] @ sampleFlight # [sampleOhana]))
              ([sampleKala] @ [sampleOhana]))) = [url sampleFlight]
        \<and> newItems (changes (ChangeDetector_generateDiffReport (Some ([sampleKala] @ sampleFlight # [sampleOhana]))
              ([sampleKala] @ [sampleOhana]))) = []
        \<and> removed (changes (ChangeDetector_generateDiffReport (Some ([sampleKala] @ sampleFlight # [sampleOhana]))
              ([sampleKala] @ [sampleOhana]))) = [sampleFlight]"
    by blast
  from p m show ?thesis by simp
qed

section \<open>Properties of the brand matching\<close>

lemma find_sorted_least:
  assumes "sorted (map f xs)" and "find P xs = Some r" and "b \<in> set xs" and "P b"
  shows "f r \<le> f b"
  using assms
proof (induction xs)
  case Nil
  then show ?case by simp
next
  case (Cons x xs)
  show ?case
  proof (cases "P x")
    case True
    with Cons.prems have "r = x" by simp
    with Cons.prems show ?thesis by auto
  next
    case False
    with Cons.prems have "find P xs = Some r" and "b \<in> set xs" and "sorted (map f xs)"
      by auto
    then show ?thesis using Cons.IH Cons.prems(4) by blast
  qed
qed

lemma find_SomeD: "find P xs = Some r \<Longrightarrow> r \<in> set xs \<and> P r"
  by (induction xs) (auto split: if_splits)

lemma find_filter: "find P (filter Q xs) = find (\<lambda>x. Q x \<and> P x) xs"
  by (induction xs) auto

lemma find_restrict:
  "find P xs = Some r \<Longrightarrow> Q r \<Longrightarrow> find (\<lambda>x. Q x \<and> P x) xs = Some r"
  by (induction xs) (auto split: if_splits)

lemma sortedBrands_first_of_length:
  assumes "find P (sortedBrands brandList) = Some r"
  shows "find (\<lambda>b. length b = length r \<and> P b) brandList = Some r"
proof -
  let ?f = "\<lambda>b::string. - int (length b)"
  have eq: "(\<lambda>b::string. ?f b = ?f r) = (\<lambda>b. length b = length r)" by auto
  from assms have "find (\<lambda>b. ?f b = ?f r \<and> P b) (sortedBrands brandList) = Some r"
    by (rule find_restrict) simp
  then have "find P (filter (\<lambda>b. ?f b = ?f r) (sort_key ?f brandList)) = Some r"
    by (simp only: find_filter sortedBrands_def)
  then have "find P (filter (\<lambda>b. ?f b = ?f r) brandList) = Some r"
    by (simp only: sort_key_stable)
  then show ?thesis
    by (simp only: find_filter eq)
qed

lemma firstToken_no_leading_space:
  "title \<noteq> [] \<Longrightarrow> \<not> isSpace (hd title) \<Longrightarrow> firstToken title = splitFirst title \<and> splitFirst title \<noteq> []"
  by (cases title) (simp_all add: firstToken_def splitFirst_def)

lemma splitFirst_leading_space:
  "title = [] \<or> isSpace (hd title) \<Longrightarrow> splitFirst title = []"
  by (cases title) (simp_all add: splitFirst_def)

text \<open>
  Claim C7, as stated, at a title that begins with white space and at the empty title, with
  no catalog brand in either: the first white-space-delimited token of \<open> kala tenor\<close> is
  \<open>kala\<close>, and the code returns \<open>UNKNOWN\<close>, not \<open>KALA\<close>; for the empty title it returns
  \<open>UNKNOWN\<close>, not the empty string.
\<close>

theorem findBestMatchingBrand_counterexample:
  "\<not> includesStr (toUpperCaseLatin1 '' kala tenor'') ''OHANA''
   \<and> findBestMatchingBrand toUpperCaseLatin1 '' kala tenor'' [''OHANA''] = ''UNKNOWN''
   \<and> toUpperCaseLatin1 (firstToken '' kala tenor'') = ''KALA''
   \<and> findBestMatchingBrand toUpperCaseLatin1 [] [] = ''UNKNOWN''
   \<and> toUpperCaseLatin1 (firstToken []) = []"
  by code_simp

text \<open>
  Claim C7, amended, for every upper-casing \<open>toUpperCase\<close>: when some catalog brand occurs
  in the upper-cased title, \<open>findBestMatchingBrand\<close> returns a catalog brand that occurs in
  it and is at least as long as every catalog brand that does, the first such in catalog
  order among those of its length. When none occurs and the title is non-empty and does not
  begin with white space, it returns the first white-space-delimited token of the title,
  upper-cased; when none occurs and the title is empty or begins with white space, it
  returns \<open>UNKNOWN\<close>.
\<close>

theorem findBestMatchingBrand_longest:
  fixes toUpperCase :: "string \<Rightarrow> string"
  shows
  "((\<exists>b \<in> set brandList. includesStr (toUpperCase title) b) \<longrightarrow>
      findBestMatchingBrand toUpperCase title brandList \<in> set brandList
      \<and> includesStr (toUpperCase title) (findBestMatchingBrand toUpperCase title brandList)
      \<and> (\<forall>b \<in> set brandList. includesStr (toUpperCase title) b
            \<longrightarrow> length b \<le> length (findBestMatchingBrand toUpperCase title brandList))
      \<and> find (\<lambda>b. length b = length (findBestMatchingBrand toUpperCase title brandList)
                   \<and> includesStr (toUpperCase title) b) brandList
          = Some (findBestMatchingBrand toUpperCase title brandList))
   \<and> (\<not> (\<exists>b \<in> set brandList. includesStr (toUpperCase title) b)
       \<and> title \<noteq> [] \<and> \<not> isSpace (hd title) \<longrightarrow>
      findBestMatchingBrand toUpperCase title brandList = toUpperCase (firstToken title)
      \<and> firstToken title = takeWhile (\<lambda>c. \<not> isSpace c) title
      \<and> firstToken title \<noteq> [])
   \<and> (\<not> (\<exists>b \<in> set brandList. includesStr (toUpperCase title) b)
       \<and> (title = [] \<or> isSpace (hd title)) \<longrightarrow>
      findBestMatchingBrand toUpperCase title brandList = ''UNKNOWN'')"
proof -
  let ?P = "\<lambda>brand. includesStr (toUpperCase title) brand"
  let ?r = "findBestMatchingBrand toUpperCase title brandList"
  let ?f = "\<lambda>b::string. - int (length b)"
  have set_sorted: "set (sortedBrands brandList) = set brandList"
    by (simp add: sortedBrands_def)
  have sorted_sorted: "sorted (map ?f (sortedBrands brandList))"
    by (simp add: sortedBrands_def)
  have hit: "?r \<in> set brandList \<and> ?P ?r
      \<and> (\<forall>b \<in> set brandList. ?P b \<longrightarrow> length b \<le> length ?r)
      \<and> find (\<lambda>b. length b = length ?r \<and> ?P b) brandList = Some ?r"
    if ex: "\<exists>b \<in> set brandList. ?P b"
  proof -
    from ex have "find ?P (sortedBrands brandList) \<noteq> None"
      by (auto simp: find_None_iff set_sorted)
    then obtain r where r: "find ?P (sortedBrands brandList) = Some r" by blast
    then have res: "?r = r"
      by (simp add: findBestMatchingBrand_def Let_def)
    from find_SomeD [OF r] have r1: "r \<in> set brandList" and r2: "?P r"
      by (simp_all add: set_sorted)
    have r3: "\<forall>b \<in> set brandList. ?P b \<longrightarrow> length b \<le> length r"
    proof (intro ballI impI)
      fix b assume "b \<in> set brandList" "?P b"
      then have "b \<in> set (sortedBrands brandList)" by (simp add: set_sorted)
      from find_sorted_least [OF sorted_sorted r this \<open>?P b\<close>]
      show "length b \<le> length r" by simp
    qed
    from sortedBrands_first_of_length [OF r]
    have r4: "find (\<lambda>b. length b = length r \<and> ?P b) brandList = Some r" .
    from r1 r2 r3 r4 show ?thesis unfolding res by blast
  qed
  have miss: "find ?P (sortedBrands brandList) = None" if "\<not> (\<exists>b \<in> set brandList. ?P b)"
    using that by (simp add: find_None_iff set_sorted)
  have fallback: "?r = toUpperCase (firstToken title)
      \<and> firstToken title = takeWhile (\<lambda>c. \<not> isSpace c) title
      \<and> firstToken title \<noteq> []"
    if "\<not> (\<exists>b \<in> set brandList. ?P b)" "title \<noteq> []" "\<not> isSpace (hd title)"
    using miss [OF that(1)] firstToken_no_leading_space [OF that(2,3)]
    by (simp add: findBestMatchingBrand_def Let_def splitFirst_def)
  have unknown: "?r = ''UNKNOWN''"
    if "\<not> (\<exists>b \<in> set brandList. ?P b)" "title = [] \<or> isSpace (hd title)"
    using miss [OF that(1)] splitFirst_leading_space [OF that(2)]
    by (simp add: findBestMatchingBrand_def Let_def)
  from hit fallback unknown show ?thesis by blast
qed

text \<open>The instance that follows takes \<open>toUpperCaseLatin1\<close> as the upper-casing: the catalog
  \<open>KALA\<close>, \<open>KALA BRAND\<close> with the title \<open>Kala Brand KA-S Soprano\<close>; a title with a sharp s,
  whose upper case \<open>STRASSE UKE\<close> is longer than the title and holds the catalog brand
  \<open>STRASSE\<close>; a title with no catalog brand; and the same title after a leading space.\<close>

theorem findBestMatchingBrand_longest_witness:
  "findBestMatchingBrand toUpperCaseLatin1 ''Kala Brand KA-S Soprano'' [''KALA'', ''KALA BRAND'']
     = ''KALA BRAND''
   \<and> findBestMatchingBrand toUpperCaseLatin1 (''stra'' @ [CHR 0xDF] @ ''e uke'') [''STRASSE'']
     = ''STRASSE''
   \<and> findBestMatchingBrand toUpperCaseLatin1 ''Mystery Uke'' [''KALA'', ''KALA BRAND''] = ''MYSTERY''
   \<and> findBestMatchingBrand toUpperCaseLatin1 '' Mystery Uke'' [''KALA'', ''KALA BRAND''] = ''UNKNOWN''"
proof -
  let ?up = toUpperCaseLatin1
  let ?cat = "[''KALA'', ''KALA BRAND'']"
  define sharp where "sharp = ''stra'' @ [CHR 0xDF] @ ''e uke''"
  have a2: "includesStr (?up ''Kala Brand KA-S Soprano'') ''KALA BRAND''"
    by code_simp
  have e1: "\<exists>b \<in> set ?cat. includesStr (?up ''Kala Brand KA-S Soprano'') b"
    using a2 by simp
  from findBestMatchingBrand_longest [of ?cat ?up "''Kala Brand KA-S Soprano''"] e1
  have in_cat: "findBestMatchingBrand ?up ''Kala Brand KA-S Soprano'' ?cat \<in> set ?cat"
    and longest: "\<forall>b \<in> set ?cat. includesStr (?up ''Kala Brand KA-S Soprano'') b
            \<longrightarrow> length b \<le> length (findBestMatchingBrand ?up ''Kala Brand KA-S Soprano'' ?cat)"
    by blast+
  from longest a2
  have "length ''KALA BRAND'' \<le> length (findBestMatchingBrand ?up ''Kala Brand KA-S Soprano'' ?cat)"
    by simp
  with in_cat have c1: "findBestMatchingBrand ?up ''Kala Brand KA-S Soprano'' ?cat = ''KALA BRAND''"
    by auto
  have as: "includesStr (?up sharp) ''STRASSE''"
    unfolding sharp_def by code_simp
  then have es: "\<exists>b \<in> set [''STRASSE'']. includesStr (?up sharp) b" by simp
  from findBestMatchingBrand_longest [of "[''STRASSE'']" ?up sharp] es
  have "findBestMatchingBrand ?up sharp [''STRASSE''] \<in> set [''STRASSE'']" by blast
  then have cs: "findBestMatchingBrand ?up sharp [''STRASSE''] = ''STRASSE''" by simp
  have n2: "\<not> (\<exists>b \<in> set ?cat. includesStr (?up ''Mystery Uke'') b)"
    by code_simp
  have s2: "''Mystery Uke'' \<noteq> [] \<and> \<not> isSpace (hd ''Mystery Uke'')"
    by code_simp
  have t2: "?up (firstToken ''Mystery Uke'') = ''MYSTERY''"
    by code_simp
  from findBestMatchingBrand_longest [of ?cat ?up "''Mystery Uke''"] n2 s2
  have "findBestMatchingBrand ?up ''Mystery Uke'' ?cat = ?up (firstToken ''Mystery Uke'')"
    by blast
  with t2 have c2: "findBestMatchingBrand ?up ''Mystery Uke'' ?cat = ''MYSTERY''" by simp
  have n3: "\<not> (\<exists>b \<in> set ?cat. includesStr (?up '' Mystery Uke'') b)"
    by code_simp
  have s3: "'' Mystery Uke'' = [] \<or> isSpace (hd '' Mystery Uke'')"
    by code_simp
  from findBestMatchingBrand_longest [of ?cat ?up "'' Mystery Uke''"] n3 s3
  have c3: "findBestMatchingBrand ?up '' Mystery Uke'' ?cat = ''UNKNOWN''"
    by blast
  from c1 cs c2 c3 show ?thesis unfolding sharp_def by blast
qed

section \<open>Properties of the date parsing\<close>

text \<open>What the two matchers compute: \<open>monthYearAt\<close> succeeds exactly on three letters,
  white space and four digits at the head of the string; \<open>monthYearMatch\<close> and
  \<open>yearMatch\<close> return the match at the leftmost position that has one.\<close>

lemma isDigit_not_isSpace: "isDigit c \<Longrightarrow> \<not> isSpace c"
  by (auto simp: isDigit_def isSpace_def)

lemma monthYearAt_SomeD:
  assumes "monthYearAt s = Some (m, y)"
  shows "length m = 3 \<and> list_all isLetter m \<and> length y = 4 \<and> list_all isDigit y
     \<and> (\<exists>ws post. s = m @ ws @ y @ post \<and> ws \<noteq> [] \<and> list_all isSpace ws)"
proof -
  from assms obtain a b c rest where s: "s = a # b # c # rest"
    by (cases s rule: monthYearAt.cases) auto
  let ?ws = "takeWhile isSpace rest" and ?r = "dropWhile isSpace rest"
  from assms s have c: "isLetter a" "isLetter b" "isLetter c" "?ws \<noteq> []" "4 \<le> length ?r"
      "list_all isDigit (take 4 ?r)" and m: "m = [a, b, c]" and y: "y = take 4 ?r"
    by (auto split: if_splits)
  have "rest = ?ws @ take 4 ?r @ drop 4 ?r" by simp
  with s m y have dec: "s = m @ ?ws @ y @ drop 4 ?r" by simp
  have sp: "list_all isSpace ?ws"
    by (auto simp: list_all_iff dest: set_takeWhileD)
  from dec c(4) sp have ex: "\<exists>ws post. s = m @ ws @ y @ post \<and> ws \<noteq> [] \<and> list_all isSpace ws"
    by blast
  have "length m = 3" and "list_all isLetter m" and "length y = 4" and "list_all isDigit y"
    using c m y by simp_all
  with ex show ?thesis by blast
qed

lemma monthYearAt_SomeI:
  assumes "length m = 3" "list_all isLetter m" "ws \<noteq> []" "list_all isSpace ws"
    "length y = 4" "list_all isDigit y"
  shows "monthYearAt (m @ ws @ y @ post) = Some (m, y)"
proof -
  from assms(1) obtain a b c where m: "m = [a, b, c]"
    by (cases m; cases "tl m"; cases "tl (tl m)") auto
  from assms(5) obtain d ds where y: "y = d # ds" by (cases y) auto
  with assms(6) have "\<not> isSpace d" by (simp add: isDigit_not_isSpace)
  with assms(4) have tw: "takeWhile isSpace (ws @ y @ post) = ws"
    and dw: "dropWhile isSpace (ws @ y @ post) = y @ post"
    by (simp_all add: y list_all_iff takeWhile_append2 dropWhile_append2)
  show ?thesis
    using assms(2,3,5,6) by (simp add: m tw dw)
qed

lemma monthYearMatch_SomeD:
  "monthYearMatch s = Some r \<Longrightarrow>
     \<exists>pre rest. s = pre @ rest \<and> monthYearAt rest = Some r
       \<and> (\<forall>k < length pre. monthYearAt (drop k s) = None)"
proof (induction s)
  case Nil
  then show ?case by simp
next
  case (Cons c cs)
  show ?case
  proof (cases "monthYearAt (c # cs)")
    case (Some m)
    with Cons.prems have "m = r" by simp
    with Some have "c # cs = [] @ (c # cs) \<and> monthYearAt (c # cs) = Some r
        \<and> (\<forall>k < length ([]::string). monthYearAt (drop k (c # cs)) = None)"
      by simp
    then show ?thesis by blast
  next
    case None
    with Cons.prems have "monthYearMatch cs = Some r" by simp
    from Cons.IH [OF this] obtain pre rest where p: "cs = pre @ rest" "monthYearAt rest = Some r"
      "\<forall>k < length pre. monthYearAt (drop k cs) = None" by blast
    have "\<forall>k < length (c # pre). monthYearAt (drop k (c # cs)) = None"
    proof (intro allI impI)
      fix k assume "k < length (c # pre)"
      then show "monthYearAt (drop k (c # cs)) = None"
        using None p(3) by (cases k) auto
    qed
    with p(1,2) have "c # cs = (c # pre) @ rest \<and> monthYearAt rest = Some r
        \<and> (\<forall>k < length (c # pre). monthYearAt (drop k (c # cs)) = None)"
      by simp
    then show ?thesis by blast
  qed
qed

lemma monthYearMatch_None_iff:
  "monthYearMatch s = None \<longleftrightarrow> (\<forall>k \<le> length s. monthYearAt (drop k s) = None)"
proof (induction s)
  case Nil
  show ?case by simp
next
  case (Cons c cs)
  show ?case
  proof (cases "monthYearAt (c # cs)")
    case (Some m)
    then have "\<not> (\<forall>k \<le> length (c # cs). monthYearAt (drop k (c # cs)) = None)"
      by (auto intro: exI [of _ 0])
    with Some show ?thesis by simp
  next
    case None
    have "(\<forall>k \<le> length (c # cs). monthYearAt (drop k (c # cs)) = None)
        \<longleftrightarrow> (\<forall>k \<le> length cs. monthYearAt (drop k cs) = None)"
    proof
      assume h: "\<forall>k \<le> length (c # cs). monthYearAt (drop k (c # cs)) = None"
      show "\<forall>k \<le> length cs. monthYearAt (drop k cs) = None"
      proof (intro allI impI)
        fix k assume "k \<le> length cs"
        with h have "monthYearAt (drop (Suc k) (c # cs)) = None" by auto
        then show "monthYearAt (drop k cs) = None" by simp
      qed
    next
      assume h: "\<forall>k \<le> length cs. monthYearAt (drop k cs) = None"
      show "\<forall>k \<le> length (c # cs). monthYearAt (drop k (c # cs)) = None"
      proof (intro allI impI)
        fix k assume "k \<le> length (c # cs)"
        then show "monthYearAt (drop k (c # cs)) = None"
          using None h by (cases k) auto
      qed
    qed
    with None Cons.IH show ?thesis by simp
  qed
qed

lemma yearMatch_SomeD:
  "yearMatch s = Some y \<Longrightarrow>
     length y = 4 \<and> list_all isDigit y
     \<and> (\<exists>pre post. s = pre @ y @ post
          \<and> (\<forall>k < length pre. \<not> (4 \<le> length (drop k s) \<and> list_all isDigit (take 4 (drop k s)))))"
proof (induction s)
  case Nil
  then show ?case by simp
next
  case (Cons c cs)
  show ?case
  proof (cases "4 \<le> length (c # cs) \<and> list_all isDigit (take 4 (c # cs))")
    case True
    with Cons.prems have y: "y = take 4 (c # cs)" by simp
    have "c # cs = [] @ y @ drop 4 (c # cs)" unfolding y by simp
    moreover have "\<forall>k < length ([]::string).
        \<not> (4 \<le> length (drop k (c # cs)) \<and> list_all isDigit (take 4 (drop k (c # cs))))"
      by simp
    moreover have "length y = 4 \<and> list_all isDigit y" using True y by auto
    ultimately show ?thesis by blast
  next
    case False
    with Cons.prems have "yearMatch cs = Some y" by auto
    from Cons.IH [OF this] obtain pre post where p: "length y = 4" "list_all isDigit y"
      "cs = pre @ y @ post"
      "\<forall>k < length pre. \<not> (4 \<le> length (drop k cs) \<and> list_all isDigit (take 4 (drop k cs)))"
      by blast
    have "\<forall>k < length (c # pre).
        \<not> (4 \<le> length (drop k (c # cs)) \<and> list_all isDigit (take 4 (drop k (c # cs))))"
    proof (intro allI impI)
      fix k assume "k < length (c # pre)"
      then show "\<not> (4 \<le> length (drop k (c # cs)) \<and> list_all isDigit (take 4 (drop k (c # cs))))"
        using False p(4) by (cases k) auto
    qed
    moreover have "c # cs = (c # pre) @ y @ post" using p(3) by simp
    ultimately show ?thesis using p(1,2) by blast
  qed
qed

lemma yearMatch_None_iff:
  "yearMatch s = None \<longleftrightarrow>
     (\<forall>k \<le> length s. \<not> (4 \<le> length (drop k s) \<and> list_all isDigit (take 4 (drop k s))))"
proof (induction s)
  case Nil
  show ?case by simp
next
  case (Cons c cs)
  show ?case
  proof (cases "4 \<le> length (c # cs) \<and> list_all isDigit (take 4 (c # cs))")
    case True
    then have "\<not> (\<forall>k \<le> length (c # cs).
        \<not> (4 \<le> length (drop k (c # cs)) \<and> list_all isDigit (take 4 (drop k (c # cs)))))"
      by (auto intro: exI [of _ 0])
    with True show ?thesis by simp
  next
    case False
    have "(\<forall>k \<le> length (c # cs).
          \<not> (4 \<le> length (drop k (c # cs)) \<and> list_all isDigit (take 4 (drop k (c # cs)))))
        \<longleftrightarrow> (\<forall>k \<le> length cs. \<not> (4 \<le> length (drop k cs) \<and> list_all isDigit (take 4 (drop k cs))))"
    proof
      assume h: "\<forall>k \<le> length (c # cs).
          \<not> (4 \<le> length (drop k (c # cs)) \<and> list_all isDigit (take 4 (drop k (c # cs))))"
      show "\<forall>k \<le> length cs. \<not> (4 \<le> length (drop k cs) \<and> list_all isDigit (take 4 (drop k cs)))"
      proof (intro allI impI)
        fix k assume "k \<le> length cs"
        then have "Suc k \<le> length (c # cs)" by simp
        with h have "\<not> (4 \<le> length (drop (Suc k) (c # cs))
            \<and> list_all isDigit (take 4 (drop (Suc k) (c # cs))))" by blast
        then show "\<not> (4 \<le> length (drop k cs) \<and> list_all isDigit (take 4 (drop k cs)))" by simp
      qed
    next
      assume h: "\<forall>k \<le> length cs. \<not> (4 \<le> length (drop k cs) \<and> list_all isDigit (take 4 (drop k cs)))"
      show "\<forall>k \<le> length (c # cs).
          \<not> (4 \<le> length (drop k (c # cs)) \<and> list_all isDigit (take 4 (drop k (c # cs))))"
      proof (intro allI impI)
        fix k assume "k \<le> length (c # cs)"
        then show "\<not> (4 \<le> length (drop k (c # cs)) \<and> list_all isDigit (take 4 (drop k (c # cs))))"
          using False h by (cases k) auto
      qed
    qed
    with False Cons.IH show ?thesis by auto
  qed
qed

lemma months_range:
  "months k = Some mm \<Longrightarrow>
     mm \<in> set [''01'', ''02'', ''03'', ''04'', ''05'', ''06'', ''07'', ''08'', ''09'', ''10'', ''11'', ''12'']"
  unfolding months_def by (drule map_of_SomeD) auto

lemma beginsWithMonthYear_iff: "beginsWithMonthYear s m y \<longleftrightarrow> monthYearAt s = Some (m, y)"
proof
  assume "beginsWithMonthYear s m y"
  then obtain ws post where "s = m @ ws @ y @ post" "length m = 3" "list_all isLetter m"
    "ws \<noteq> []" "list_all isSpace ws" "length y = 4" "list_all isDigit y"
    unfolding beginsWithMonthYear_def by blast
  then show "monthYearAt s = Some (m, y)"
    using monthYearAt_SomeI [of m ws y post] by simp
next
  assume "monthYearAt s = Some (m, y)"
  from monthYearAt_SomeD [OF this] show "beginsWithMonthYear s m y"
    unfolding beginsWithMonthYear_def by blast
qed

lemma no_monthYear_iff:
  "(\<forall>m y. \<not> beginsWithMonthYear s m y) \<longleftrightarrow> monthYearAt s = None"
  by (cases "monthYearAt s") (auto simp: beginsWithMonthYear_iff)

lemma beginsWithYear_iff:
  "beginsWithYear s y \<longleftrightarrow> 4 \<le> length s \<and> list_all isDigit (take 4 s) \<and> y = take 4 s"
proof
  assume "beginsWithYear s y"
  then obtain post where "s = y @ post" "length y = 4" "list_all isDigit y"
    unfolding beginsWithYear_def by blast
  then show "4 \<le> length s \<and> list_all isDigit (take 4 s) \<and> y = take 4 s" by simp
next
  assume a: "4 \<le> length s \<and> list_all isDigit (take 4 s) \<and> y = take 4 s"
  then have "s = y @ drop 4 s" "length y = 4" "list_all isDigit y" by simp_all
  then show "beginsWithYear s y" unfolding beginsWithYear_def by blast
qed

lemma no_year_iff:
  "(\<forall>y. \<not> beginsWithYear s y) \<longleftrightarrow> \<not> (4 \<le> length s \<and> list_all isDigit (take 4 s))"
  by (auto simp: beginsWithYear_iff)

lemma monthYearMatch_head: "monthYearAt s = Some r \<Longrightarrow> monthYearMatch s = Some r"
  by (cases s) simp_all

lemma monthYearMatch_skip:
  "(\<forall>k < length pre. monthYearAt (drop k (pre @ rest)) = None) \<Longrightarrow>
     monthYearMatch (pre @ rest) = monthYearMatch rest"
proof (induction pre)
  case Nil
  show ?case by simp
next
  case (Cons c pre)
  from Cons.prems have h0: "monthYearAt (c # pre @ rest) = None" by force
  have "\<forall>k < length pre. monthYearAt (drop k (pre @ rest)) = None"
  proof (intro allI impI)
    fix k assume "k < length pre"
    then have "Suc k < length (c # pre)" by simp
    with Cons.prems have "monthYearAt (drop (Suc k) ((c # pre) @ rest)) = None" by blast
    then show "monthYearAt (drop k (pre @ rest)) = None" by simp
  qed
  with Cons.IH have "monthYearMatch (pre @ rest) = monthYearMatch rest" by blast
  with h0 show ?case by simp
qed

lemma yearMatch_head:
  "4 \<le> length s \<Longrightarrow> list_all isDigit (take 4 s) \<Longrightarrow> yearMatch s = Some (take 4 s)"
  by (cases s) simp_all

lemma yearMatch_skip:
  "(\<forall>k < length pre. \<not> (4 \<le> length (drop k (pre @ rest))
        \<and> list_all isDigit (take 4 (drop k (pre @ rest))))) \<Longrightarrow>
     yearMatch (pre @ rest) = yearMatch rest"
proof (induction pre)
  case Nil
  show ?case by simp
next
  case (Cons c pre)
  from Cons.prems
  have h0: "\<not> (4 \<le> length (c # pre @ rest) \<and> list_all isDigit (take 4 (c # pre @ rest)))"
    by force
  have "\<forall>k < length pre. \<not> (4 \<le> length (drop k (pre @ rest))
        \<and> list_all isDigit (take 4 (drop k (pre @ rest))))"
  proof (intro allI impI)
    fix k assume "k < length pre"
    then have "Suc k < length (c # pre)" by simp
    with Cons.prems have "\<not> (4 \<le> length (drop (Suc k) ((c # pre) @ rest))
        \<and> list_all isDigit (take 4 (drop (Suc k) ((c # pre) @ rest))))" by blast
    then show "\<not> (4 \<le> length (drop k (pre @ rest))
        \<and> list_all isDigit (take 4 (drop k (pre @ rest))))" by simp
  qed
  with Cons.IH have ih: "yearMatch (pre @ rest) = yearMatch rest" by blast
  have "yearMatch (c # pre @ rest) = yearMatch (pre @ rest)"
    by (subst yearMatch.simps(2)) (simp only: h0 if_False)
  with ih show ?case by (simp only: append_Cons)
qed

lemma monthYearAt_has_year:
  assumes "monthYearAt rest = Some (m, y)"
  shows "\<exists>k \<le> length (pre @ rest). beginsWithYear (drop k (pre @ rest)) y"
proof -
  from monthYearAt_SomeD [OF assms] obtain ws post where
    r: "rest = m @ ws @ y @ post" and y: "length y = 4" "list_all isDigit y" by blast
  let ?k = "length (pre @ m @ ws)"
  have "drop ?k (pre @ rest) = y @ post" unfolding r by simp
  with y have "beginsWithYear (drop ?k (pre @ rest)) y"
    unfolding beginsWithYear_def by blast
  moreover have "?k \<le> length (pre @ rest)" unfolding r by simp
  ultimately show ?thesis by blast
qed

lemma months_table:
  "(k, v) \<in> set [(''jan'', ''01''), (''feb'', ''02''), (''mar'', ''03''), (''apr'', ''04''),
            (''may'', ''05''), (''jun'', ''06''), (''jul'', ''07''), (''aug'', ''08''),
            (''sep'', ''09''), (''oct'', ''10''), (''nov'', ''11''), (''dec'', ''12'')] \<Longrightarrow> months k = Some v"
  unfolding months_def by (rule map_of_is_SomeI) simp_all

lemma months_no_name:
  "k \<notin> set [''jan'', ''feb'', ''mar'', ''apr'', ''may'', ''jun'',
            ''jul'', ''aug'', ''sep'', ''oct'', ''nov'', ''dec''] \<Longrightarrow> months k = None"
  unfolding months_def by (simp add: map_of_eq_None_iff)

lemma all_less_upt: "(\<forall>k < n. P k) \<longleftrightarrow> list_all P [0..<n]"
  by (auto simp: list_all_iff)

lemma all_le_upt: "(\<forall>k \<le> n. P k) \<longleftrightarrow> list_all P [0..<Suc n]"
  by (auto simp: list_all_iff less_Suc_eq_le)

text \<open>
  Claim C9, as stated, at \<open>Reviewed 2019, updated Mar 2021\<close>: the string contains the
  month name \<open>Mar\<close> followed by the year \<open>2021\<close>, but the leftmost three letters followed
  by white space and four digits are \<open>wed 2019\<close>; \<open>wed\<close> is no month, control falls
  through to the year pattern, and the result is \<open>2019-01-01\<close>, not \<open>2021-03-01\<close>.
\<close>

theorem parseReviewDate_counterexample:
  "includesStr ''Reviewed 2019, updated Mar 2021'' ''Mar 2021''
   \<and> months (toLowerCase ''Mar'') = Some ''03''
   \<and> parseReviewDate ''Reviewed 2019, updated Mar 2021'' = Some ''2019-01-01''
   \<and> parseReviewDate ''Reviewed 2019, updated Mar 2021'' \<noteq> Some ''2021-03-01''
   \<and> monthYearMatch (cleanDate ''Reviewed 2019, updated Mar 2021'') = Some (''wed'', ''2019'')"
  by code_simp

text \<open>
  Claim C9, amended: \<open>parseReviewDate\<close> works on the text \<open>cd\<close> it gets from its argument
  by removing the parentheses and trimming. When the leftmost place of \<open>cd\<close> that begins
  with three letters, white space and four digits has a month name (in any case) as its
  letters, the result is \<open>YYYY-MM-01\<close> with the digits and the month number of that place.
  When \<open>cd\<close> has no such place, or the letters of the leftmost one are no month name, the
  leftmost four digits in a row give \<open>YYYY-01-01\<close>. The empty string, and a string whose
  \<open>cd\<close> has no four digits in a row, give \<open>null\<close>. Every result that is not \<open>null\<close> is
  four digits, a month number and the day \<open>01\<close>.
\<close>

theorem parseReviewDate_leftmost:
  assumes cd: "cd = trim (filter (\<lambda>c. c \<noteq> CHR ''('' \<and> c \<noteq> CHR '')'') dateStr)"
  shows
  "(dateStr \<noteq> [] \<and> cd = pre @ rest \<and> beginsWithMonthYear rest m y
      \<and> (\<forall>k < length pre. \<forall>m' y'. \<not> beginsWithMonthYear (drop k cd) m' y')
      \<and> (toLowerCase m, mm) \<in> set
           [(''jan'', ''01''), (''feb'', ''02''), (''mar'', ''03''), (''apr'', ''04''),
            (''may'', ''05''), (''jun'', ''06''), (''jul'', ''07''), (''aug'', ''08''),
            (''sep'', ''09''), (''oct'', ''10''), (''nov'', ''11''), (''dec'', ''12'')]
      \<longrightarrow> parseReviewDate dateStr = Some (y @ ''-'' @ mm @ ''-01''))
   \<and> (dateStr \<noteq> []
       \<and> ((\<forall>k \<le> length cd. \<forall>m' y'. \<not> beginsWithMonthYear (drop k cd) m' y')
          \<or> (cd = pre @ rest \<and> beginsWithMonthYear rest m y
              \<and> (\<forall>k < length pre. \<forall>m' y'. \<not> beginsWithMonthYear (drop k cd) m' y')
              \<and> toLowerCase m \<notin> set
           [''jan'', ''feb'', ''mar'', ''apr'', ''may'', ''jun'',
            ''jul'', ''aug'', ''sep'', ''oct'', ''nov'', ''dec'']))
       \<and> cd = ypre @ yrest \<and> beginsWithYear yrest year
       \<and> (\<forall>k < length ypre. \<forall>y'. \<not> beginsWithYear (drop k cd) y')
      \<longrightarrow> parseReviewDate dateStr = Some (year @ ''-01-01''))
   \<and> (dateStr = [] \<or> (\<forall>k \<le> length cd. \<forall>y'. \<not> beginsWithYear (drop k cd) y')
      \<longrightarrow> parseReviewDate dateStr = None)
   \<and> (\<forall>d. parseReviewDate dateStr = Some d \<longrightarrow>
        (\<exists>yyyy mon. d = yyyy @ ''-'' @ mon @ ''-01''
           \<and> length yyyy = 4 \<and> list_all isDigit yyyy
           \<and> mon \<in> set [''01'', ''02'', ''03'', ''04'', ''05'', ''06'',
                         ''07'', ''08'', ''09'', ''10'', ''11'', ''12'']))"
proof -
  have c: "cleanDate dateStr = cd" by (simp add: cleanDate_def cd)
  let ?fall = "\<forall>m' y'. monthYearMatch cd = Some (m', y') \<longrightarrow> months (toLowerCase m') = None"
  have leftmost: "monthYearMatch cd = Some (m, y)"
    if "cd = pre @ rest" "beginsWithMonthYear rest m y"
      "\<forall>k < length pre. \<forall>m' y'. \<not> beginsWithMonthYear (drop k cd) m' y'"
  proof -
    from that(2) have at: "monthYearAt rest = Some (m, y)" by (simp add: beginsWithMonthYear_iff)
    from that(3) have "\<forall>k < length pre. monthYearAt (drop k (pre @ rest)) = None"
      by (simp add: no_monthYear_iff that(1))
    then have "monthYearMatch (pre @ rest) = monthYearMatch rest" by (rule monthYearMatch_skip)
    with monthYearMatch_head [OF at] that(1) show ?thesis by simp
  qed
  have leftmost_year: "yearMatch cd = Some year"
    if "cd = ypre @ yrest" "beginsWithYear yrest year"
      "\<forall>k < length ypre. \<forall>y'. \<not> beginsWithYear (drop k cd) y'"
  proof -
    from that(2) have at: "4 \<le> length yrest" "list_all isDigit (take 4 yrest)" "year = take 4 yrest"
      by (simp_all add: beginsWithYear_iff)
    from that(3) have "\<forall>k < length ypre. \<not> (4 \<le> length (drop k (ypre @ yrest))
        \<and> list_all isDigit (take 4 (drop k (ypre @ yrest))))"
      by (simp add: no_year_iff that(1))
    then have "yearMatch (ypre @ yrest) = yearMatch yrest" by (rule yearMatch_skip)
    with yearMatch_head [OF at(1,2)] at(3) that(1) show ?thesis by simp
  qed
  have month: "parseReviewDate dateStr = Some (y @ ''-'' @ mm @ ''-01'')"
    if "dateStr \<noteq> []" "monthYearMatch cd = Some (m, y)" "months (toLowerCase m) = Some mm"
    using that by (simp add: parseReviewDate_def Let_def c)
  have fall: "parseReviewDate dateStr
      = (case yearMatch cd of Some yr \<Rightarrow> Some (yr @ ''-01-01'') | None \<Rightarrow> None)"
    if "dateStr \<noteq> []" ?fall
    using that by (auto simp: parseReviewDate_def Let_def c split: option.splits)
  have b1: "parseReviewDate dateStr = Some (y @ ''-'' @ mm @ ''-01'')"
    if "dateStr \<noteq> []" "cd = pre @ rest" "beginsWithMonthYear rest m y"
      "\<forall>k < length pre. \<forall>m' y'. \<not> beginsWithMonthYear (drop k cd) m' y'"
      "(toLowerCase m, mm) \<in> set
           [(''jan'', ''01''), (''feb'', ''02''), (''mar'', ''03''), (''apr'', ''04''),
            (''may'', ''05''), (''jun'', ''06''), (''jul'', ''07''), (''aug'', ''08''),
            (''sep'', ''09''), (''oct'', ''10''), (''nov'', ''11''), (''dec'', ''12'')]"
    using month [OF that(1) leftmost [OF that(2,3,4)] months_table [OF that(5)]] .
  have nomatch: ?fall if "\<forall>k \<le> length cd. \<forall>m' y'. \<not> beginsWithMonthYear (drop k cd) m' y'"
  proof -
    from that have "\<forall>k \<le> length cd. monthYearAt (drop k cd) = None"
      by (simp add: no_monthYear_iff)
    then have "monthYearMatch cd = None" by (simp add: monthYearMatch_None_iff)
    then show ?thesis by simp
  qed
  have nomonth: ?fall
    if "cd = pre @ rest" "beginsWithMonthYear rest m y"
      "\<forall>k < length pre. \<forall>m' y'. \<not> beginsWithMonthYear (drop k cd) m' y'"
      "toLowerCase m \<notin> set
           [''jan'', ''feb'', ''mar'', ''apr'', ''may'', ''jun'',
            ''jul'', ''aug'', ''sep'', ''oct'', ''nov'', ''dec'']"
    using leftmost [OF that(1,2,3)] months_no_name [OF that(4)] by simp
  have b2: "parseReviewDate dateStr = Some (year @ ''-01-01'')"
    if "dateStr \<noteq> []"
      "(\<forall>k \<le> length cd. \<forall>m' y'. \<not> beginsWithMonthYear (drop k cd) m' y')
          \<or> (cd = pre @ rest \<and> beginsWithMonthYear rest m y
              \<and> (\<forall>k < length pre. \<forall>m' y'. \<not> beginsWithMonthYear (drop k cd) m' y')
              \<and> toLowerCase m \<notin> set
           [''jan'', ''feb'', ''mar'', ''apr'', ''may'', ''jun'',
            ''jul'', ''aug'', ''sep'', ''oct'', ''nov'', ''dec''])"
      "cd = ypre @ yrest" "beginsWithYear yrest year"
      "\<forall>k < length ypre. \<forall>y'. \<not> beginsWithYear (drop k cd) y'"
  proof -
    from that(2) have f: ?fall using nomatch nomonth by blast
    from fall [OF that(1) f] leftmost_year [OF that(3,4,5)] show ?thesis by simp
  qed
  have b3: "parseReviewDate dateStr = None"
    if "dateStr = [] \<or> (\<forall>k \<le> length cd. \<forall>y'. \<not> beginsWithYear (drop k cd) y')"
  proof (cases "dateStr = []")
    case True
    then show ?thesis by (simp add: parseReviewDate_def)
  next
    case False
    with that have ny: "\<forall>k \<le> length cd. \<forall>y'. \<not> beginsWithYear (drop k cd) y'" by blast
    then have yn: "yearMatch cd = None"
      by (simp add: yearMatch_None_iff no_year_iff)
    have "monthYearMatch cd = None"
    proof (cases "monthYearMatch cd")
      case None
      then show ?thesis .
    next
      case (Some r)
      obtain m' y' where r: "r = (m', y')" by (cases r)
      from monthYearMatch_SomeD [OF Some] r obtain p q where
        "cd = p @ q" "monthYearAt q = Some (m', y')" by blast
      with monthYearAt_has_year [of q m' y' p] ny show ?thesis by blast
    qed
    then have ?fall by simp
    from fall [OF False this] yn show ?thesis by simp
  qed
  have shape: "\<exists>yyyy mon. d = yyyy @ ''-'' @ mon @ ''-01''
           \<and> length yyyy = 4 \<and> list_all isDigit yyyy
           \<and> mon \<in> set [''01'', ''02'', ''03'', ''04'', ''05'', ''06'',
                         ''07'', ''08'', ''09'', ''10'', ''11'', ''12'']"
    if d: "parseReviewDate dateStr = Some d" for d
  proof -
    from d have ne: "dateStr \<noteq> []" by (auto simp: parseReviewDate_def)
    show ?thesis
    proof (cases "\<exists>m' y' mm'. monthYearMatch cd = Some (m', y') \<and> months (toLowerCase m') = Some mm'")
      case True
      then obtain m' y' mm' where h: "monthYearMatch cd = Some (m', y')"
        "months (toLowerCase m') = Some mm'" by blast
      with ne d have dd: "d = y' @ ''-'' @ mm' @ ''-01''"
        by (simp add: parseReviewDate_def Let_def c)
      from monthYearMatch_SomeD [OF h(1)] obtain q where "monthYearAt q = Some (m', y')"
        by blast
      from monthYearAt_SomeD [OF this] have "length y' = 4" "list_all isDigit y'" by blast+
      with dd months_range [OF h(2)] show ?thesis by blast
    next
      case False
      then have f: ?fall by (metis not_Some_eq)
      from fall [OF ne f] d obtain yr where yr: "yearMatch cd = Some yr" "d = yr @ ''-01-01''"
        by (auto split: option.splits)
      from yearMatch_SomeD [OF yr(1)] have "length yr = 4" "list_all isDigit yr" by blast+
      moreover have "d = yr @ ''-'' @ ''01'' @ ''-01''" using yr(2) by simp
      ultimately show ?thesis by (intro exI [of _ yr] exI [of _ "''01''"]) simp
    qed
  qed
  from b1 b2 b3 shape show ?thesis by blast
qed

text \<open>The instance that follows takes the three dates of the specification, a date in
  capitals after another word and between spaces, a date whose month and year meet only
  once the parentheses are removed, a date whose leftmost three letters before a year are
  no month name, and the empty string.\<close>

theorem parseReviewDate_leftmost_witness:
  "parseReviewDate ''(Mar 2021)'' = Some ''2021-03-01''
   \<and> parseReviewDate '' (updated MAR 2021) '' = Some ''2021-03-01''
   \<and> parseReviewDate ''Dec (2022)'' = Some ''2022-12-01''
   \<and> parseReviewDate ''(2019)'' = Some ''2019-01-01''
   \<and> parseReviewDate ''wed 2019, Mar 2021'' = Some ''2019-01-01''
   \<and> parseReviewDate ''(unknown)'' = None
   \<and> parseReviewDate ([]::string) = None"
proof -
  have c1: "trim (filter (\<lambda>c. c \<noteq> CHR ''('' \<and> c \<noteq> CHR '')'') ''(Mar 2021)'') = ''Mar 2021''"
    by code_simp
  have h1: "''(Mar 2021)'' \<noteq> [] \<and> ''Mar 2021'' = ([]::string) @ ''Mar 2021'' \<and> beginsWithMonthYear ''Mar 2021'' ''Mar'' ''2021''
      \<and> (\<forall>k < length ([]::string). \<forall>m' y'. \<not> beginsWithMonthYear (drop k ''Mar 2021'') m' y')
      \<and> (toLowerCase ''Mar'', ''03'') \<in> set
           [(''jan'', ''01''), (''feb'', ''02''), (''mar'', ''03''), (''apr'', ''04''),
            (''may'', ''05''), (''jun'', ''06''), (''jul'', ''07''), (''aug'', ''08''),
            (''sep'', ''09''), (''oct'', ''10''), (''nov'', ''11''), (''dec'', ''12'')]"
    apply (simp only: no_monthYear_iff no_year_iff)
    apply (simp only: beginsWithMonthYear_iff beginsWithYear_iff all_less_upt all_le_upt)
    apply code_simp
    done
  have r1: "parseReviewDate ''(Mar 2021)'' = Some (''2021'' @ ''-'' @ ''03'' @ ''-01'')"
    by (rule parseReviewDate_leftmost [OF c1 [symmetric], THEN conjunct1, THEN mp, OF h1])
  have c2: "trim (filter (\<lambda>c. c \<noteq> CHR ''('' \<and> c \<noteq> CHR '')'') '' (updated MAR 2021) '') = ''updated MAR 2021''"
    by code_simp
  have h2: "'' (updated MAR 2021) '' \<noteq> [] \<and> ''updated MAR 2021'' = ''updated '' @ ''MAR 2021'' \<and> beginsWithMonthYear ''MAR 2021'' ''MAR'' ''2021''
      \<and> (\<forall>k < length ''updated ''. \<forall>m' y'. \<not> beginsWithMonthYear (drop k ''updated MAR 2021'') m' y')
      \<and> (toLowerCase ''MAR'', ''03'') \<in> set
           [(''jan'', ''01''), (''feb'', ''02''), (''mar'', ''03''), (''apr'', ''04''),
            (''may'', ''05''), (''jun'', ''06''), (''jul'', ''07''), (''aug'', ''08''),
            (''sep'', ''09''), (''oct'', ''10''), (''nov'', ''11''), (''dec'', ''12'')]"
    apply (simp only: no_monthYear_iff no_year_iff)
    apply (simp only: beginsWithMonthYear_iff beginsWithYear_iff all_less_upt all_le_upt)
    apply code_simp
    done
  have r2: "parseReviewDate '' (updated MAR 2021) '' = Some (''2021'' @ ''-'' @ ''03'' @ ''-01'')"
    by (rule parseReviewDate_leftmost [OF c2 [symmetric], THEN conjunct1, THEN mp, OF h2])
  have c3: "trim (filter (\<lambda>c. c \<noteq> CHR ''('' \<and> c \<noteq> CHR '')'') ''Dec (2022)'') = ''Dec 2022''"
    by code_simp
  have h3: "''Dec (2022)'' \<noteq> [] \<and> ''Dec 2022'' = ([]::string) @ ''Dec 2022'' \<and> beginsWithMonthYear ''Dec 2022'' ''Dec'' ''2022''
      \<and> (\<forall>k < length ([]::string). \<forall>m' y'. \<not> beginsWithMonthYear (drop k ''Dec 2022'') m' y')
      \<and> (toLowerCase ''Dec'', ''12'') \<in> set
           [(''jan'', ''01''), (''feb'', ''02''), (''mar'', ''03''), (''apr'', ''04''),
            (''may'', ''05''), (''jun'', ''06''), (''jul'', ''07''), (''aug'', ''08''),
            (''sep'', ''09''), (''oct'', ''10''), (''nov'', ''11''), (''dec'', ''12'')]"
    apply (simp only: no_monthYear_iff no_year_iff)
    apply (simp only: beginsWithMonthYear_iff beginsWithYear_iff all_less_upt all_le_upt)
    apply code_simp
    done
  have r3: "parseReviewDate ''Dec (2022)'' = Some (''2022'' @ ''-'' @ ''12'' @ ''-01'')"
    by (rule parseReviewDate_leftmost [OF c3 [symmetric], THEN conjunct1, THEN mp, OF h3])
  have c4: "trim (filter (\<lambda>c. c \<noteq> CHR ''('' \<and> c \<noteq> CHR '')'') ''(2019)'') = ''2019''"
    by code_simp
  have h4: "''(2019)'' \<noteq> []
       \<and> ((\<forall>k \<le> length ''2019''. \<forall>m' y'. \<not> beginsWithMonthYear (drop k ''2019'') m' y')
          \<or> (''2019'' = ([]::string) @ ([]::string) \<and> beginsWithMonthYear ([]::string) ([]::string) ([]::string)
              \<and> (\<forall>k < length ([]::string). \<forall>m' y'. \<not> beginsWithMonthYear (drop k ''2019'') m' y')
              \<and> toLowerCase ([]::string) \<notin> set
           [''jan'', ''feb'', ''mar'', ''apr'', ''may'', ''jun'',
            ''jul'', ''aug'', ''sep'', ''oct'', ''nov'', ''dec'']))
       \<and> ''2019'' = ([]::string) @ ''2019'' \<and> beginsWithYear ''2019'' ''2019''
       \<and> (\<forall>k < length ([]::string). \<forall>y'. \<not> beginsWithYear (drop k ''2019'') y')"
    apply (simp only: no_monthYear_iff no_year_iff)
    apply (simp only: beginsWithMonthYear_iff beginsWithYear_iff all_less_upt all_le_upt)
    apply code_simp
    done
  have r4: "parseReviewDate ''(2019)'' = Some (''2019'' @ ''-01-01'')"
    by (rule parseReviewDate_leftmost [OF c4 [symmetric], THEN conjunct2, THEN conjunct1, THEN mp, OF h4])
  have c5: "trim (filter (\<lambda>c. c \<noteq> CHR ''('' \<and> c \<noteq> CHR '')'') ''wed 2019, Mar 2021'') = ''wed 2019, Mar 2021''"
    by code_simp
  have h5: "''wed 2019, Mar 2021'' \<noteq> []
       \<and> ((\<forall>k \<le> length ''wed 2019, Mar 2021''. \<forall>m' y'. \<not> beginsWithMonthYear (drop k ''wed 2019, Mar 2021'') m' y')
          \<or> (''wed 2019, Mar 2021'' = ([]::string) @ ''wed 2019, Mar 2021'' \<and> beginsWithMonthYear ''wed 2019, Mar 2021'' ''wed'' ''2019''
              \<and> (\<forall>k < length ([]::string). \<forall>m' y'. \<not> beginsWithMonthYear (drop k ''wed 2019, Mar 2021'') m' y')
              \<and> toLowerCase ''wed'' \<notin> set
           [''jan'', ''feb'', ''mar'', ''apr'', ''may'', ''jun'',
            ''jul'', ''aug'', ''sep'', ''oct'', ''nov'', ''dec'']))
       \<and> ''wed 2019, Mar 2021'' = ''wed '' @ ''2019, Mar 2021'' \<and> beginsWithYear ''2019, Mar 2021'' ''2019''
       \<and> (\<forall>k < length ''wed ''. \<forall>y'. \<not> beginsWithYear (drop k ''wed 2019, Mar 2021'') y')"
    apply (simp only: no_monthYear_iff no_year_iff)
    apply (simp only: beginsWithMonthYear_iff beginsWithYear_iff all_less_upt all_le_upt)
    apply code_simp
    done
  have r5: "parseReviewDate ''wed 2019, Mar 2021'' = Some (''2019'' @ ''-01-01'')"
    by (rule parseReviewDate_leftmost [OF c5 [symmetric], THEN conjunct2, THEN conjunct1, THEN mp, OF h5])
  have c6: "trim (filter (\<lambda>c. c \<noteq> CHR ''('' \<and> c \<noteq> CHR '')'') ''(unknown)'') = ''unknown''"
    by code_simp
  have h6: "''(unknown)'' = [] \<or> (\<forall>k \<le> length ''unknown''. \<forall>y'. \<not> beginsWithYear (drop k ''unknown'') y')"
    apply (simp only: no_monthYear_iff no_year_iff)
    apply (simp only: beginsWithMonthYear_iff beginsWithYear_iff all_less_upt all_le_upt)
    apply code_simp
    done
  have r6: "parseReviewDate ''(unknown)'' = None"
    by (rule parseReviewDate_leftmost [OF c6 [symmetric], THEN conjunct2, THEN conjunct2, THEN conjunct1, THEN mp, OF h6])
  have c7: "trim (filter (\<lambda>c. c \<noteq> CHR ''('' \<and> c \<noteq> CHR '')'') ([]::string)) = ([]::string)"
    by code_simp
  have h7: "([]::string) = [] \<or> (\<forall>k \<le> length ([]::string). \<forall>y'. \<not> beginsWithYear (drop k ([]::string)) y')"
    apply (simp only: no_monthYear_iff no_year_iff)
    apply (simp only: beginsWithMonthYear_iff beginsWithYear_iff all_less_upt all_le_upt)
    apply code_simp
    done
  have r7: "parseReviewDate ([]::string) = None"
    by (rule parseReviewDate_leftmost [OF c7 [symmetric], THEN conjunct2, THEN conjunct2, THEN conjunct1, THEN mp, OF h7])
  from r1 r2 r3 r4 r5 r6 r7 show ?thesis by simp
qed

end
